theory Spec2Isabelle
  imports Main "HOL-Library.Word" "HOL-Library.Multiset"
begin

section \<open>The host mail item\<close>

text \<open>
  The three task-pane components (\<^verbatim>\<open>TextInsertion.tsx\<close>, \<^verbatim>\<open>AttachmentProcess.tsx\<close> and the
  consent-gated \<^verbatim>\<open>processEmailData\<close>) read the open mail item through
  \<^verbatim>\<open>Office.context.mailbox.item\<close>. Only the members the components read are modelled.
  JavaScript strings are modelled as \<open>string\<close>; the components never inspect their
  characters, except for the result of \<^verbatim>\<open>atob\<close>, whose characters are bytes.
\<close>

datatype AttachmentContentFormat = Base64 | Eml | ICalendar | Url

record AttachmentDetails =
  id_d :: string
  name_d :: string
  contentType :: string

text \<open>The argument of the callback of \<^verbatim>\<open>getAttachmentContentAsync\<close>: either
  \<^verbatim>\<open>status === Succeeded\<close> with \<^verbatim>\<open>value.content\<close> and \<^verbatim>\<open>value.format\<close>, or a
  failure carrying \<^verbatim>\<open>error\<close>.\<close>

datatype AsyncResult =
    Succeeded string AttachmentContentFormat
  | Failed string

record EmailAddressDetails =
  emailAddress :: string

text \<open>\<open>item_attachments\<close> is \<open>None\<close> when evaluating
  \<^verbatim>\<open>Office.context.mailbox.item.attachments.forEach\<close> throws (the list is not there);
  \<open>dateTimeCreated\<close> is the value of \<^verbatim>\<open>getTime()\<close>, milliseconds since the epoch.\<close>

record MailItem =
  item_attachments :: "AttachmentDetails list option"
  item_sender :: EmailAddressDetails
  item_to :: "EmailAddressDetails list"
  item_subject :: string
  item_conversationId :: string
  item_itemId :: string
  item_dateTimeCreated :: int

section \<open>Component state\<close>

record Attachment =
  id_a :: string
  name_a :: string

record metadata =
  sender :: string
  to :: string
  subject :: string
  conversationId :: string
  itemId :: string
  timeStamp :: string

text \<open>The \<^verbatim>\<open>useState\<close> cells. \<^verbatim>\<open>TextInsertion.tsx\<close> has the first two,
  \<^verbatim>\<open>AttachmentProcess.tsx\<close> the first three, \<^verbatim>\<open>processEmailData\<close> all five; a component
  never touches a cell it does not declare.\<close>

record State =
  attachments :: "Attachment list"
  isAttachmentFetched :: "bool option"
  isSubmissionInitiated :: bool
  isConsent :: bool
  metaData :: "metadata option"

definition initialState :: State where
  "initialState =
     \<lparr>attachments = [], isAttachmentFetched = None, isSubmissionInitiated = False,
      isConsent = False, metaData = None\<rparr>"

section \<open>Effects of a handler\<close>

datatype js_error = TypeError | InvalidCharacterError

datatype BlobPart = Uint8Array "8 word list" | Str string

record Blob =
  blobParts :: "BlobPart list"
  type_b :: string

datatype console_arg = Caught js_error | ResultError string

text \<open>
  A handler runs against the state of the render that created it and performs effects in
  order: calls of the \<^verbatim>\<open>useState\<close> setters, \<^verbatim>\<open>console.error\<close>, a content request
  to the host (the attachment identifier and the callback), and a click on a temporary
  anchor whose \<^verbatim>\<open>href\<close> is the object URL of a blob and whose \<^verbatim>\<open>download\<close> is a
  file name. A callback either runs to its end (\<open>Inr\<close>, with its effects) or throws
  (\<open>Inl\<close>).
\<close>

datatype effect =
    SetAttachments "Attachment list"
  | SetIsAttachmentFetched bool
  | SetIsSubmissionInitiated bool
  | SetIsConsent bool
  | SetMetaData metadata
  | ConsoleError string console_arg
  | GetAttachmentContentAsync string "AsyncResult \<Rightarrow> js_error + effect list"
  | AnchorClick Blob string

text \<open>The setters do not change the state the running handler sees; React applies them,
  in order, for the next render.\<close>

fun setState :: "State \<Rightarrow> effect \<Rightarrow> State" where
  "setState st (SetAttachments v) = st\<lparr>attachments := v\<rparr>"
| "setState st (SetIsAttachmentFetched v) = st\<lparr>isAttachmentFetched := Some v\<rparr>"
| "setState st (SetIsSubmissionInitiated v) = st\<lparr>isSubmissionInitiated := v\<rparr>"
| "setState st (SetIsConsent v) = st\<lparr>isConsent := v\<rparr>"
| "setState st (SetMetaData v) = st\<lparr>metaData := Some v\<rparr>"
| "setState st (ConsoleError m e) = st"
| "setState st (GetAttachmentContentAsync i callback) = st"
| "setState st (AnchorClick b n) = st"

definition nextState :: "State \<Rightarrow> effect list \<Rightarrow> State" where
  "nextState st t = foldl setState st t"

text \<open>\<^verbatim>\<open>try { body } catch (error) { handler }\<close>, where \<open>Inl\<close> is a thrown exception.\<close>

definition try_catch ::
  "js_error + effect list \<Rightarrow> (js_error \<Rightarrow> js_error + effect list)
        \<Rightarrow> js_error + effect list" where
  "try_catch body handler = (case body of Inl error \<Rightarrow> handler error | Inr t
        \<Rightarrow> Inr t)"

section \<open>Fetching the attachment list\<close>

text \<open>The body of the \<^verbatim>\<open>forEach\<close> callback: \<^verbatim>\<open>names.push({id, name})\<close>. The callback is
  \<^verbatim>\<open>async\<close> but awaits nothing, so it runs to its end inside \<^verbatim>\<open>forEach\<close>.\<close>

fun forEach_push :: "AttachmentDetails list \<Rightarrow> Attachment list \<Rightarrow> Attachment
      list" where
  "forEach_push [] names = names"
| "forEach_push (attachment # rest) names =
     forEach_push rest (names @ [\<lparr>id_a = id_d attachment, name_a = name_d
           attachment\<rparr>])"

text \<open>
  \<^verbatim>\<open>fetchAttachments\<close> of \<^verbatim>\<open>TextInsertion.tsx\<close> (lines 52-69). Every iteration calls
  \<^verbatim>\<open>setAttachments(names)\<close> with the one array \<^verbatim>\<open>names\<close>, which holds all entries
  when React reads it. \<^verbatim>\<open>attachments.length > 0\<close> reads the \<^verbatim>\<open>attachments\<close> of the
  render that created the handler.
\<close>

definition fetchAttachments :: "State \<Rightarrow> MailItem \<Rightarrow> js_error + effect list"
      where
  "fetchAttachments st item =
     try_catch
       (case item_attachments item of
          None \<Rightarrow> Inl TypeError
        | Some list \<Rightarrow>
            (let names = forEach_push list []
             in Inr (map (\<lambda>attachment. SetAttachments names) list
                     @ [SetIsAttachmentFetched (length (attachments st) > 0)])))
       (\<lambda>error. Inr [SetIsAttachmentFetched False,
                      ConsoleError ''Error fetching attachments:'' (Caught error)])"

text \<open>\<^verbatim>\<open>fetchAttachments\<close> of \<^verbatim>\<open>AttachmentProcess.tsx\<close> (lines 86-103).\<close>

definition fetchAttachments_AttachmentProcess :: "State \<Rightarrow> MailItem \<Rightarrow>
      js_error + effect list" where
  "fetchAttachments_AttachmentProcess st item =
     try_catch
       (case item_attachments item of
          None \<Rightarrow> Inl TypeError
        | Some list \<Rightarrow>
            (let names = forEach_push list []
             in Inr (map (\<lambda>attachment. SetAttachments names) list
                     @ [SetIsAttachmentFetched (length (attachments st) > 0)])))
       (\<lambda>error. Inr [SetIsAttachmentFetched False,
                      ConsoleError ''Error fetching attachments:'' (Caught error)])"

text \<open>\<^verbatim>\<open>fetchAttachmentMetadata\<close> of \<^verbatim>\<open>processEmailData\<close> (lines 109-126).\<close>

definition fetchAttachmentMetadata :: "State \<Rightarrow> MailItem \<Rightarrow> js_error +
      effect list" where
  "fetchAttachmentMetadata st item =
     try_catch
       (case item_attachments item of
          None \<Rightarrow> Inl TypeError
        | Some list \<Rightarrow>
            (let names = forEach_push list []
             in Inr (map (\<lambda>attachment. SetAttachments names) list
                     @ [SetIsAttachmentFetched (length (attachments st) > 0)])))
       (\<lambda>error. Inr [SetIsAttachmentFetched False,
                      ConsoleError ''Error fetching attachments:'' (Caught error)])"

text \<open>The state of the next render after a handler; a handler whose promise is rejected
  has called no setter on the paths modelled here.\<close>

definition after :: "State \<Rightarrow> js_error + effect list \<Rightarrow> State" where
  "after st r = (case r of Inl error \<Rightarrow> st | Inr t \<Rightarrow> nextState st t)"

section \<open>Browser functions\<close>

text \<open>
  \<^verbatim>\<open>atob\<close> and \<^verbatim>\<open>JSON.stringify\<close> belong to the browser, not to this repository; the
  components are modelled for any such pair of functions. \<^verbatim>\<open>atob\<close> returns a string
  whose characters are bytes, or throws \<^verbatim>\<open>InvalidCharacterError\<close> on text that is not
  Base64 (\<open>None\<close>).
\<close>

record Browser =
  atob :: "string \<Rightarrow> string option"
  JSON_stringify :: "metadata option \<Rightarrow> string"

text \<open>\<^verbatim>\<open>Number.prototype.toString\<close> on the integral value of \<^verbatim>\<open>getTime()\<close>: its
  decimal digits, with a minus sign before the epoch.\<close>

function digits :: "nat \<Rightarrow> string" where
  "digits n = (if n < 10 then [''0123456789'' ! n]
               else digits (n div 10) @ [''0123456789'' ! (n mod 10)])"
  by pat_completeness auto
termination
  by (relation "measure (\<lambda>n. n)") auto

definition toString :: "int \<Rightarrow> string" where
  "toString i = (if i < 0 then CHR ''-'' # digits (nat (- i)) else digits (nat i))"

text \<open>Reading a string of decimal digits back, to say what \<open>digits\<close>
      renders.\<close>

definition fromDigits :: "string \<Rightarrow> nat" where
  "fromDigits s = foldl (\<lambda>acc c. 10 * acc + (of_char c - 48)) 0 s"

section \<open>Reading the metadata\<close>

text \<open>
  \<^verbatim>\<open>getMetadata\<close> of \<^verbatim>\<open>processEmailData\<close> (lines 96-107). The object literal is
  evaluated before \<^verbatim>\<open>setMetaData\<close> is called; \<^verbatim>\<open>to[0]\<close> is \<^verbatim>\<open>undefined\<close> on an empty
  recipient list and reading \<^verbatim>\<open>.emailAddress\<close> of it throws, outside any
  \<^verbatim>\<open>try\<close>, so the promise of the \<^verbatim>\<open>async\<close> handler is rejected.
  \<^verbatim>\<open>fetchAttachmentMetadata()\<close> is called without \<^verbatim>\<open>await\<close>: a rejection of its promise
  would not reach \<^verbatim>\<open>getMetadata\<close>.
\<close>

definition getMetadata :: "State \<Rightarrow> MailItem \<Rightarrow> js_error + effect list" where
  "getMetadata st item =
     (case item_to item of
        [] \<Rightarrow> Inl TypeError
      | to0 # rest \<Rightarrow>
          Inr (SetMetaData
                 \<lparr>sender = emailAddress (item_sender item),
                  to = emailAddress to0,
                  subject = item_subject item,
                  conversationId = item_conversationId item,
                  itemId = item_itemId item,
                  timeStamp = toString (item_dateTimeCreated item)\<rparr>
               # (case fetchAttachmentMetadata st item of Inl error \<Rightarrow> [] | Inr t
                     \<Rightarrow> t)))"

section \<open>Downloading\<close>

text \<open>The loop \<^verbatim>\<open>for (let i = 0; i < byteCharacters.length; i++) byteNumbers[i] =
  byteCharacters.charCodeAt(i)\<close>.\<close>

function byteNumbers_loop :: "string \<Rightarrow> nat \<Rightarrow> nat list \<Rightarrow> nat
      list" where
  "byteNumbers_loop byteCharacters i byteNumbers =
     (if i < length byteCharacters
      then byteNumbers_loop byteCharacters (i + 1)
             (byteNumbers[i := of_char (byteCharacters ! i)])
      else byteNumbers)"
  by pat_completeness auto
termination
  by (relation "measure (\<lambda>(byteCharacters, i, byteNumbers). length byteCharacters - i)")
        auto

text \<open>\<^verbatim>\<open>new Uint8Array(byteNumbers)\<close> keeps each number modulo 256.\<close>

definition Uint8Array_from :: "nat list \<Rightarrow> 8 word list" where
  "Uint8Array_from byteNumbers = map of_nat byteNumbers"

text \<open>The blob built in the success branch of the content callback
  (\<^verbatim>\<open>TextInsertion.tsx\<close> lines 77-91, the same text in the other two components).
  \<^verbatim>\<open>atob(content)\<close> may throw; nothing in the callback catches it.
  \<^verbatim>\<open>new Array(n)\<close> has \<open>n\<close> empty slots, which the loop fills.\<close>

definition buildBlob ::
  "Browser \<Rightarrow> AttachmentDetails \<Rightarrow> string \<Rightarrow>
        AttachmentContentFormat \<Rightarrow> js_error + Blob" where
  "buildBlob br attachment content format =
     (let contentType' =
            (if format = Base64 then ''application/octet-stream'' else contentType attachment)
      in if format = Base64
         then (case atob br content of
                 None \<Rightarrow> Inl InvalidCharacterError
               | Some byteCharacters \<Rightarrow>
                   (let byteNumbers = byteNumbers_loop byteCharacters 0
                                        (replicate (length byteCharacters) 0);
                        byteArray = Uint8Array_from byteNumbers
                    in Inr \<lparr>blobParts = [Uint8Array byteArray], type_b =
                          contentType'\<rparr>))
         else Inr \<lparr>blobParts = [Str content], type_b = contentType'\<rparr>)"

text \<open>The callback passed to \<^verbatim>\<open>getAttachmentContentAsync\<close> in \<^verbatim>\<open>TextInsertion.tsx\<close>
  (lines 75-103). The host calls it after \<^verbatim>\<open>downloadAttachments\<close> has returned, so the
  \<^verbatim>\<open>try\<close> of the handler does not enclose it: an exception of \<^verbatim>\<open>atob\<close> ends the
  callback before the anchor is made.\<close>

definition contentCallback ::
  "Browser \<Rightarrow> AttachmentDetails \<Rightarrow> AsyncResult \<Rightarrow> js_error +
        effect list" where
  "contentCallback br attachment result =
     (case result of
        Succeeded content format \<Rightarrow>
          (case buildBlob br attachment content format of
             Inl error \<Rightarrow> Inl error
           | Inr blob \<Rightarrow> Inr [AnchorClick blob (name_d attachment)])
      | Failed error \<Rightarrow>
          Inr [ConsoleError ''Error fetching attachment content'' (ResultError error)])"

text \<open>The callback in \<^verbatim>\<open>AttachmentProcess.tsx\<close> (lines 109-139) and in
  \<^verbatim>\<open>processEmailData\<close> (lines 132-162), which also set \<^verbatim>\<open>isSubmissionInitiated\<close>;
  \<^verbatim>\<open>setIsSubmissionInitiated(true)\<close> comes after the click, so it is not reached when
  \<^verbatim>\<open>atob\<close> throws.\<close>

definition contentCallback_flag ::
  "Browser \<Rightarrow> AttachmentDetails \<Rightarrow> AsyncResult \<Rightarrow> js_error +
        effect list" where
  "contentCallback_flag br attachment result =
     (case result of
        Succeeded content format \<Rightarrow>
          (case buildBlob br attachment content format of
             Inl error \<Rightarrow> Inl error
           | Inr blob \<Rightarrow>
               Inr [AnchorClick blob (name_d attachment), SetIsSubmissionInitiated True])
      | Failed error \<Rightarrow>
          Inr [SetIsSubmissionInitiated False,
               ConsoleError ''Error fetching attachment content'' (ResultError error)])"

text \<open>\<^verbatim>\<open>downloadAttachments\<close> of \<^verbatim>\<open>TextInsertion.tsx\<close> (lines 71-108). The handler
  only issues the requests, each with its callback closed over \<^verbatim>\<open>attachment\<close>; the host
  runs the callbacks later. The list was read from \<^verbatim>\<open>item\<close> just before, so the
  optional chain \<^verbatim>\<open>Office?.context?.mailbox?.item?\<close> is defined.\<close>

definition downloadAttachments :: "Browser \<Rightarrow> MailItem \<Rightarrow> js_error + effect
      list" where
  "downloadAttachments br item =
     try_catch
       (case item_attachments item of
          None \<Rightarrow> Inl TypeError
        | Some list \<Rightarrow>
            Inr (map (\<lambda>attachment.
                        (let attachmentId = id_d attachment
                         in GetAttachmentContentAsync attachmentId (contentCallback br attachment)))
                   list))
       (\<lambda>error. Inr [ConsoleError ''Error fetching attachments'' (Caught error)])"

text \<open>\<^verbatim>\<open>downloadAttachments\<close> of \<^verbatim>\<open>AttachmentProcess.tsx\<close> (lines 105-144).\<close>

definition downloadAttachments_AttachmentProcess :: "Browser \<Rightarrow> MailItem \<Rightarrow>
      js_error + effect list" where
  "downloadAttachments_AttachmentProcess br item =
     try_catch
       (case item_attachments item of
          None \<Rightarrow> Inl TypeError
        | Some list \<Rightarrow>
            Inr (map (\<lambda>attachment.
                        (let attachmentId = id_d attachment
                         in GetAttachmentContentAsync attachmentId
                              (contentCallback_flag br attachment)))
                   list))
       (\<lambda>error. Inr [ConsoleError ''Error fetching attachments'' (Caught error)])"

text \<open>\<^verbatim>\<open>downloadMetaData\<close> of \<^verbatim>\<open>processEmailData\<close> (lines 173-183).\<close>

definition downloadMetaData :: "Browser \<Rightarrow> metadata option \<Rightarrow> effect list"
      where
  "downloadMetaData br md =
     (let jsonString = JSON_stringify br md;
          blob = \<lparr>blobParts = [Str jsonString], type_b = ''text/plain''\<rparr>
      in [AnchorClick blob ''metadata.txt''])"

text \<open>\<^verbatim>\<open>downloadAttachments\<close> of \<^verbatim>\<open>processEmailData\<close> (lines 128-171):
  \<^verbatim>\<open>downloadMetaData(metaData)\<close> runs inside the \<^verbatim>\<open>try\<close>, after the requests are
  issued and before any callback, on the \<^verbatim>\<open>metaData\<close> of the render that created the
  handler.\<close>

definition downloadAttachments_consent :: "Browser \<Rightarrow> State \<Rightarrow> MailItem
      \<Rightarrow> js_error + effect list" where
  "downloadAttachments_consent br st item =
     try_catch
       (case item_attachments item of
          None \<Rightarrow> Inl TypeError
        | Some list \<Rightarrow>
            Inr (map (\<lambda>attachment.
                        (let attachmentId = id_d attachment
                         in GetAttachmentContentAsync attachmentId
                              (contentCallback_flag br attachment)))
                   list
                 @ downloadMetaData br (metaData st)))
       (\<lambda>error. Inr [ConsoleError ''Error fetching attachments'' (Caught error)])"

text \<open>What a trace asked of the host and what it handed to the user.\<close>

fun requests :: "effect list \<Rightarrow> (string \<times> (AsyncResult \<Rightarrow> js_error +
      effect list)) list" where
  "requests [] = []"
| "requests (GetAttachmentContentAsync i callback # t) = (i, callback) # requests t"
| "requests (e # t) = requests t"

fun downloads :: "effect list \<Rightarrow> (Blob \<times> string) list" where
  "downloads [] = []"
| "downloads (AnchorClick b n # t) = (b, n) # downloads t"
| "downloads (e # t) = downloads t"

text \<open>The effects a handler or callback has performed: on the paths modelled here, one
  that throws has performed none.\<close>

definition effectsOf :: "js_error + effect list \<Rightarrow> effect list" where
  "effectsOf r = (case r of Inl error \<Rightarrow> [] | Inr t \<Rightarrow> t)"

definition requestsOf ::
  "js_error + effect list \<Rightarrow> (string \<times> (AsyncResult \<Rightarrow> js_error +
        effect list)) list" where
  "requestsOf r = requests (effectsOf r)"

text \<open>
  The host answers each request once, by calling its callback with the result of
  fetching the content under the request's identifier. It answers in an order of its own:
  \<open>pending\<close> holds the requests in the order they are answered. An exception thrown by
  one callback is not caught by the component and does not keep the host from answering
  the other requests.
\<close>

definition hostAnswers ::
  "(string \<Rightarrow> AsyncResult) \<Rightarrow> (string \<times> (AsyncResult \<Rightarrow>
        js_error + effect list)) list
     \<Rightarrow> effect list" where
  "hostAnswers getAttachmentContent pending =
     concat (map (\<lambda>(attachmentId, callback).
                    effectsOf (callback (getAttachmentContent attachmentId)))
               pending)"

text \<open>The requests for the attachments in \<open>order\<close>, each with the callback
      closed over
  its attachment.\<close>

definition requestsFor ::
  "(AttachmentDetails \<Rightarrow> AsyncResult \<Rightarrow> js_error + effect list)
        \<Rightarrow> AttachmentDetails list
     \<Rightarrow> (string \<times> (AsyncResult \<Rightarrow> js_error + effect list)) list" where
  "requestsFor callback order =
     map (\<lambda>attachment. (id_d attachment, callback attachment)) order"

fun isSucceeded :: "AsyncResult \<Rightarrow> bool" where
  "isSucceeded (Succeeded content format) = True"
| "isSucceeded (Failed error) = False"

text \<open>Whether a callback given this result runs to its end: it does not when the result
  is Base64 content that \<^verbatim>\<open>atob\<close> rejects.\<close>

definition completes :: "Browser \<Rightarrow> AsyncResult \<Rightarrow> bool" where
  "completes br result =
     (case result of
        Succeeded content format \<Rightarrow> (if format = Base64 then atob br content \<noteq>
              None else True)
      | Failed error \<Rightarrow> True)"

section \<open>Rendering\<close>

datatype element =
    ConsentCheckbox
  | Button string bool
  | NoAttachmentsMessage
  | MetaDataDisplay "metadata option"
  | AttachmentNames "string list"
  | SuccessBanner

text \<open>\<open>Button label disabled\<close>. The JSX of \<^verbatim>\<open>TextInsertion.tsx\<close> (lines 112-149).\<close>

definition render_TextInsertion :: "State \<Rightarrow> element list" where
  "render_TextInsertion st =
     [Button ''Fetch Attachments'' (length (attachments st) > 0)]
     @ (if isAttachmentFetched st \<noteq> None \<and> length (attachments st) = 0
           \<and> isAttachmentFetched st = Some False
        then [NoAttachmentsMessage] else [])
     @ (if length (attachments st) > 0
        then [AttachmentNames (map name_a (attachments st)), Button ''Submit'' False]
        else [])"

text \<open>The JSX of \<^verbatim>\<open>AttachmentProcess.tsx\<close> (lines 148-201). The metadata lines read the
  mail item during rendering; \<^verbatim>\<open>to[0].emailAddress\<close> throws on an empty recipient
  list.\<close>

definition render_AttachmentProcess :: "State \<Rightarrow> MailItem \<Rightarrow> js_error +
      element list" where
  "render_AttachmentProcess st item =
     (let fetchPart =
            (if length (attachments st) = 0
             then [Button ''Fetch MetaData'' (length (attachments st) > 0)] else []);
          messagePart =
            (if isAttachmentFetched st \<noteq> None \<and> length (attachments st) = 0
                \<and> isAttachmentFetched st = Some False
             then [NoAttachmentsMessage] else []);
          bannerPart = (if isSubmissionInitiated st then [SuccessBanner] else [])
      in if length (attachments st) > 0 \<and> \<not> isSubmissionInitiated st
         then (case item_to item of
                 [] \<Rightarrow> Inl TypeError
               | to0 # rest \<Rightarrow>
                   Inr (fetchPart @ messagePart
                        @ [MetaDataDisplay
                             (Some \<lparr>sender = emailAddress (item_sender item),
                                    to = emailAddress to0,
                                    subject = item_subject item,
                                    conversationId = item_conversationId item,
                                    itemId = item_itemId item,
                                    timeStamp = toString (item_dateTimeCreated item)\<rparr>),
                           AttachmentNames (map name_a (attachments st)),
                           Button ''Submit'' False]
                        @ bannerPart))
         else Inr (fetchPart @ messagePart @ bannerPart))"

text \<open>The JSX of \<^verbatim>\<open>processEmailData\<close> (lines 187-248); \<^verbatim>\<open>metaData?.sender\<close> and its
  siblings read the \<^verbatim>\<open>metaData\<close> cell and cannot throw.\<close>

definition render_processEmailData :: "State \<Rightarrow> element list" where
  "render_processEmailData st =
     (if length (attachments st) = 0
      then [ConsentCheckbox,
            Button ''Proceed'' (\<not> isConsent st \<and> length (attachments st) > 0)]
      else [])
     @ (if isAttachmentFetched st \<noteq> None \<and> length (attachments st) = 0
           \<and> isAttachmentFetched st = Some False
        then [NoAttachmentsMessage] else [])
     @ (if length (attachments st) > 0 \<and> \<not> isSubmissionInitiated st
        then [MetaDataDisplay (metaData st),
              AttachmentNames (map name_a (attachments st)),
              Button ''Submit'' False]
        else [])
     @ (if isSubmissionInitiated st then [SuccessBanner] else [])"

text \<open>A click on a button runs its handler only when the button is rendered and not
  disabled. The click on \<^verbatim>\<open>Proceed\<close>:\<close>

definition click_Proceed :: "State \<Rightarrow> MailItem \<Rightarrow> (js_error + effect list)
      option" where
  "click_Proceed st item =
     (if Button ''Proceed'' False \<in> set (render_processEmailData st)
      then Some (getMetadata st item) else None)"

section \<open>The stored descriptors\<close>

text \<open>The \<^verbatim>\<open>attachments\<close> state is either still empty or the list of descriptors
  \<^verbatim>\<open>{id, name}\<close> of the item's attachments.\<close>

definition storedFromItem :: "MailItem \<Rightarrow> State \<Rightarrow> bool" where
  "storedFromItem item st =
     (attachments st = []
      \<or> (case item_attachments item of
            None \<Rightarrow> False
          | Some list \<Rightarrow>
              attachments st =
                map (\<lambda>attachment. \<lparr>id_a = id_d attachment, name_a = name_d
                      attachment\<rparr>) list))"

section \<open>Example data\<close>

definition report_pdf :: AttachmentDetails where
  "report_pdf = \<lparr>id_d = ''AAMkAD1'', name_d = ''report.pdf'', contentType = ''application/pdf''\<rparr>"

definition notes_txt :: AttachmentDetails where
  "notes_txt = \<lparr>id_d = ''AAMkAD2'', name_d = ''notes.txt'', contentType = ''text/plain''\<rparr>"

definition exampleItem :: MailItem where
  "exampleItem =
     \<lparr>item_attachments = Some [report_pdf, notes_txt],
      item_sender = \<lparr>emailAddress = ''alice@example.com''\<rparr>,
      item_to = [\<lparr>emailAddress = ''bob@example.com''\<rparr>],
      item_subject = ''Quarterly report'',
      item_conversationId = ''conv-17'',
      item_itemId = ''item-42'',
      item_dateTimeCreated = 1700000000000\<rparr>"

text \<open>The same item with no To recipient, and one whose attachment list cannot be
  enumerated.\<close>

definition itemWithoutRecipient :: MailItem where
  "itemWithoutRecipient = exampleItem\<lparr>item_to := []\<rparr>"

definition itemWithoutList :: MailItem where
  "itemWithoutList = exampleItem\<lparr>item_attachments := None\<rparr>"

text \<open>The metadata of the example item, and a state in which list and metadata have been
  fetched.\<close>

definition exampleMetadata :: metadata where
  "exampleMetadata =
     \<lparr>sender = ''alice@example.com'', to = ''bob@example.com'',
      subject = ''Quarterly report'', conversationId = ''conv-17'', itemId = ''item-42'',
      timeStamp = ''1700000000000''\<rparr>"

definition fetchedState :: State where
  "fetchedState =
     \<lparr>attachments = [\<lparr>id_a = ''AAMkAD1'', name_a = ''report.pdf''\<rparr>,
                    \<lparr>id_a = ''AAMkAD2'', name_a = ''notes.txt''\<rparr>],
      isAttachmentFetched = Some False, isSubmissionInitiated = False,
      isConsent = False, metaData = Some exampleMetadata\<rparr>"

text \<open>A browser for the examples. \<^verbatim>\<open>atob\<close> is given on the two texts the examples
  apply it to: \<^verbatim>\<open>atob("aGk=")\<close> is \<^verbatim>\<open>"hi"\<close>, and \<^verbatim>\<open>atob("%%%")\<close> throws, \<^verbatim>\<open>%\<close> being no
  Base64 character. \<^verbatim>\<open>JSON.stringify\<close> is given on records whose strings need no
  escaping.\<close>

definition quoted :: "string \<Rightarrow> string" where
  "quoted s = CHR 0x22 # s @ [CHR 0x22]"

definition exampleBrowser :: Browser where
  "exampleBrowser =
     \<lparr>atob = (\<lambda>s. if s = ''aGk='' then Some ''hi'' else None),
      JSON_stringify = (\<lambda>md. case md of
          None \<Rightarrow> ''null''
        | Some m \<Rightarrow> ''{'' @ quoted ''sender'' @ '':'' @ quoted (sender m) @ '',''
                    @ quoted ''to'' @ '':'' @ quoted (to m) @ '',''
                    @ quoted ''subject'' @ '':'' @ quoted (subject m) @ '',''
                    @ quoted ''conversationId'' @ '':'' @ quoted (conversationId m) @ '',''
                    @ quoted ''itemId'' @ '':'' @ quoted (itemId m) @ '',''
                    @ quoted ''timeStamp'' @ '':'' @ quoted (timeStamp m) @ ''}'')\<rparr>"

text \<open>Three hosts. The first fails to fetch the first attachment of the example item and
  fetches the second; the second does the same with another error and other content; the
  third fetches both and reports as Base64 a content that is not.\<close>

definition exampleContent :: "string \<Rightarrow> AsyncResult" where
  "exampleContent attachmentId =
     (if attachmentId = ''AAMkAD1'' then Failed ''timeout'' else Succeeded ''aGk='' Base64)"

definition otherContent :: "string \<Rightarrow> AsyncResult" where
  "otherContent attachmentId =
     (if attachmentId = ''AAMkAD1'' then Failed ''busy''
      else Succeeded ''https://example.com/notes.txt'' Url)"

definition undecodableContent :: "string \<Rightarrow> AsyncResult" where
  "undecodableContent attachmentId = Succeeded ''%%%'' Base64"

section \<open>Properties of the model\<close>

lemma forEach_push_eq:
  "forEach_push list names =
     names @ map (\<lambda>attachment. \<lparr>id_a = id_d attachment, name_a = name_d
           attachment\<rparr>) list"
  by (induction list arbitrary: names) simp_all

lemma nextState_append: "nextState st (t @ u) = nextState (nextState st t) u"
  by (simp add: nextState_def)

lemma nextState_Nil: "nextState st [] = st"
  by (simp add: nextState_def)

lemma nextState_Cons: "nextState st (e # t) = nextState (setState st e) t"
  by (simp add: nextState_def)

lemma nextState_SetAttachments:
  "nextState st (map (\<lambda>x. SetAttachments names) list) =
     (if list = [] then st else st\<lparr>attachments := names\<rparr>)"
  by (induction list arbitrary: st) (simp_all add: nextState_Nil nextState_Cons)

lemma after_fetchAttachments:
  "item_attachments item = Some list \<Longrightarrow>
   after st (fetchAttachments st item) =
     (if list = [] then st else st\<lparr>attachments := forEach_push list []\<rparr>)
       \<lparr>isAttachmentFetched := Some (length (attachments st) > 0)\<rparr>"
  by (simp add: fetchAttachments_def try_catch_def after_def Let_def nextState_append
      nextState_SetAttachments nextState_Cons nextState_Nil)

lemma fetchAttachmentMetadata_eq: "fetchAttachmentMetadata = fetchAttachments"
  by (intro ext) (simp add: fetchAttachmentMetadata_def fetchAttachments_def)

lemma fetchAttachments_AttachmentProcess_eq: "fetchAttachments_AttachmentProcess = fetchAttachments"
  by (intro ext) (simp add: fetchAttachments_AttachmentProcess_def fetchAttachments_def)

lemma fetchAttachments_None:
  "item_attachments item = None \<Longrightarrow>
   fetchAttachments st item =
     Inr [SetIsAttachmentFetched False,
          ConsoleError ''Error fetching attachments:'' (Caught TypeError)]"
  by (simp add: fetchAttachments_def try_catch_def)

lemma storedFromItem_fetchAttachments:
  "storedFromItem item st \<Longrightarrow> storedFromItem item (after st (fetchAttachments st
        item))"
proof (cases "item_attachments item")
  case None
  assume "storedFromItem item st"
  then show ?thesis
    using None
    by (simp add: storedFromItem_def fetchAttachments_None after_def nextState_Cons nextState_Nil)
next
  case (Some list)
  assume "storedFromItem item st"
  then show ?thesis
    using Some by (auto simp add: storedFromItem_def after_fetchAttachments forEach_push_eq)
qed

lemma fromDigits_snoc: "fromDigits (s @ [c]) = 10 * fromDigits s + (of_char c - 48)"
  by (simp add: fromDigits_def)

lemma digit_value: "n < 10 \<Longrightarrow> (of_char (''0123456789'' ! n) :: nat) - 48 = n"
proof -
  assume "n < 10"
  then have "n \<in> {0, 1, 2, 3, 4, 5, 6, 7, 8, 9}" by auto
  then show ?thesis by auto
qed

lemma fromDigits_digits: "fromDigits (digits n) = n"
proof (induction n rule: digits.induct)
  case (1 n)
  show ?case
  proof (cases "n < 10")
    case True
    then show ?thesis
      using digit_value [of n] by (simp add: fromDigits_def)
  next
    case False
    have "digits n = digits (n div 10) @ [''0123456789'' ! (n mod 10)]"
      using False by (subst digits.simps) simp
    then show ?thesis
      using 1 False digit_value [of "n mod 10"] by (simp add: fromDigits_snoc del: digits.simps)
  qed
qed

lemma byteNumbers_loop_eq:
  "length byteNumbers = length byteCharacters \<Longrightarrow> i \<le> length byteCharacters
        \<Longrightarrow>
   byteNumbers_loop byteCharacters i byteNumbers =
     take i byteNumbers @ map of_char (drop i byteCharacters)"
proof (induction byteCharacters i byteNumbers rule: byteNumbers_loop.induct)
  case (1 byteCharacters i byteNumbers)
  show ?case
  proof (cases "i < length byteCharacters")
    case True
    have "byteNumbers_loop byteCharacters i byteNumbers =
            byteNumbers_loop byteCharacters (i + 1)
              (byteNumbers[i := of_char (byteCharacters ! i)])"
      using True by (subst byteNumbers_loop.simps) simp
    also have "\<dots> = take (i + 1) (byteNumbers[i := of_char (byteCharacters ! i)])
                    @ map of_char (drop (i + 1) byteCharacters)"
      using 1 True by simp
    also have "take (i + 1) (byteNumbers[i := of_char (byteCharacters ! i)])
                 = take i byteNumbers @ [of_char (byteCharacters ! i)]"
      using 1 True by (simp add: take_Suc_conv_app_nth)
    also have "(take i byteNumbers @ [of_char (byteCharacters ! i)])
                 @ map of_char (drop (i + 1) byteCharacters)
               = take i byteNumbers @ map of_char (drop i byteCharacters)"
      using True by (simp add: Cons_nth_drop_Suc [symmetric])
    finally show ?thesis .
  next
    case False
    then show ?thesis using 1 by (subst byteNumbers_loop.simps) simp
  qed
qed

lemma byteArray_eq:
  "Uint8Array_from (byteNumbers_loop s 0 (replicate (length s) 0)) = map of_char s"
  by (simp add: byteNumbers_loop_eq Uint8Array_from_def of_nat_of_char del: byteNumbers_loop.simps)


lemma buildBlob_Base64:
  "atob br content = Some byteCharacters \<Longrightarrow>
   buildBlob br attachment content Base64 =
     Inr \<lparr>blobParts = [Uint8Array (map of_char byteCharacters)],
          type_b = ''application/octet-stream''\<rparr>"
  by (simp add: buildBlob_def Let_def byteArray_eq del: byteNumbers_loop.simps)

lemma buildBlob_Base64_throws:
  "atob br content = None \<Longrightarrow>
   buildBlob br attachment content Base64 = Inl InvalidCharacterError"
  by (simp add: buildBlob_def)

lemma buildBlob_other:
  "format \<noteq> Base64 \<Longrightarrow>
   buildBlob br attachment content format =
     Inr \<lparr>blobParts = [Str content], type_b = contentType attachment\<rparr>"
  by (simp add: buildBlob_def)

lemma buildBlob_completes:
  "completes br (Succeeded content format) \<Longrightarrow>
   \<exists>blob. buildBlob br attachment content format = Inr blob"
  by (cases "format = Base64")
    (auto simp add: completes_def buildBlob_Base64 buildBlob_other)

lemma buildBlob_aborts:
  "\<not> completes br (Succeeded content format) \<Longrightarrow>
   buildBlob br attachment content format = Inl InvalidCharacterError"
  by (cases "format = Base64")
    (auto simp add: completes_def buildBlob_Base64_throws split: if_splits)

lemma downloads_append: "downloads (t @ u) = downloads t @ downloads u"
  by (induction t rule: downloads.induct) simp_all

lemma requests_append: "requests (t @ u) = requests t @ requests u"
  by (induction t rule: requests.induct) simp_all

lemma downloads_requests:
  "downloads (map (\<lambda>a. GetAttachmentContentAsync (k a) (cb a)) list) = []"
  by (induction list) simp_all

lemma requests_requests:
  "requests (map (\<lambda>a. GetAttachmentContentAsync (k a) (cb a)) list) =
     map (\<lambda>a. (k a, cb a)) list"
  by (induction list) simp_all

lemma nextState_requests:
  "nextState st (map (\<lambda>a. GetAttachmentContentAsync (k a) (cb a)) list) = st"
  by (induction list) (simp_all add: nextState_Nil nextState_Cons)

lemma hostAnswers_Nil: "hostAnswers g (requestsFor cb []) = []"
  by (simp add: hostAnswers_def requestsFor_def)

lemma hostAnswers_Cons:
  "hostAnswers g (requestsFor cb (a # order)) =
     effectsOf (cb a (g (id_d a))) @ hostAnswers g (requestsFor cb order)"
  by (simp add: hostAnswers_def requestsFor_def)

lemma requestsFor_permutation:
  "mset order = mset list \<Longrightarrow> mset (requestsFor cb order) = mset (requestsFor cb
        list)"
  by (simp add: requestsFor_def)

lemma names_permutation:
  "mset order = mset list \<Longrightarrow>
   mset (map name_d (filter P order)) = mset (map name_d (filter P list))"
  by simp

lemma contentCallback_completes:
  "buildBlob br a c f = Inr blob \<Longrightarrow>
   contentCallback br a (Succeeded c f) = Inr [AnchorClick blob (name_d a)]"
  by (simp add: contentCallback_def)

lemma contentCallback_flag_completes:
  "buildBlob br a c f = Inr blob \<Longrightarrow>
   contentCallback_flag br a (Succeeded c f) =
     Inr [AnchorClick blob (name_d a), SetIsSubmissionInitiated True]"
  by (simp add: contentCallback_flag_def)

lemma contentCallback_aborts:
  "buildBlob br a c f = Inl err \<Longrightarrow> contentCallback br a (Succeeded c f) = Inl err"
  by (simp add: contentCallback_def)

lemma contentCallback_flag_aborts:
  "buildBlob br a c f = Inl err \<Longrightarrow> contentCallback_flag br a (Succeeded c f) = Inl
        err"
  by (simp add: contentCallback_flag_def)

lemma requests_contentCallback: "requests (effectsOf (contentCallback br a r)) = []"
  by (cases r) (simp_all add: contentCallback_def effectsOf_def split: sum.splits)

lemma requests_contentCallback_flag: "requests (effectsOf (contentCallback_flag br a r)) = []"
  by (cases r) (simp_all add: contentCallback_flag_def effectsOf_def split: sum.splits)

lemma names_contentCallback:
  "map snd (downloads (effectsOf (contentCallback br a r))) =
     (if isSucceeded r \<and> completes br r then [name_d a] else [])"
proof (cases r)
  case (Succeeded c f)
  show ?thesis
  proof (cases "completes br (Succeeded c f)")
    case True
    then obtain blob where "buildBlob br a c f = Inr blob"
      using buildBlob_completes by blast
    then show ?thesis
      using True by (simp add: Succeeded contentCallback_completes effectsOf_def)
  next
    case False
    then show ?thesis
      by (simp add: Succeeded buildBlob_aborts contentCallback_aborts effectsOf_def)
  qed
next
  case (Failed e)
  then show ?thesis by (simp add: contentCallback_def effectsOf_def)
qed

lemma names_contentCallback_flag:
  "map snd (downloads (effectsOf (contentCallback_flag br a r))) =
     (if isSucceeded r \<and> completes br r then [name_d a] else [])"
proof (cases r)
  case (Succeeded c f)
  show ?thesis
  proof (cases "completes br (Succeeded c f)")
    case True
    then obtain blob where "buildBlob br a c f = Inr blob"
      using buildBlob_completes by blast
    then show ?thesis
      using True by (simp add: Succeeded contentCallback_flag_completes effectsOf_def)
  next
    case False
    then show ?thesis
      by (simp add: Succeeded buildBlob_aborts contentCallback_flag_aborts effectsOf_def)
  qed
next
  case (Failed e)
  then show ?thesis by (simp add: contentCallback_flag_def effectsOf_def)
qed

lemma download_names_hostAnswers:
  assumes "\<And>a r. map snd (downloads (effectsOf (cb a r))) = (if P r then [name_d a] else [])"
  shows "map snd (downloads (hostAnswers g (requestsFor cb order))) =
           map name_d (filter (\<lambda>a. P (g (id_d a))) order)"
proof (induction order)
  case Nil
  show ?case by (simp add: hostAnswers_Nil)
next
  case (Cons a order)
  show ?case
    using Cons assms [of a "g (id_d a)"] by (simp add: hostAnswers_Cons downloads_append)
qed

lemma requests_hostAnswers:
  assumes "\<And>a r. requests (effectsOf (cb a r)) = []"
  shows "requests (hostAnswers g (requestsFor cb order)) = []"
proof (induction order)
  case Nil
  show ?case by (simp add: hostAnswers_Nil)
next
  case (Cons a order)
  show ?case
    using Cons assms [of a "g (id_d a)"] by (simp add: hostAnswers_Cons requests_append)
qed

lemma nextState_contentCallback: "nextState st (effectsOf (contentCallback br a r)) = st"
  by (cases r)
    (simp_all add: contentCallback_def effectsOf_def nextState_Cons nextState_Nil
      split: sum.splits)

lemma nextState_contentCallback_flag:
  "nextState st (effectsOf (contentCallback_flag br a r)) =
     (if completes br r then st\<lparr>isSubmissionInitiated := isSucceeded r\<rparr> else st)"
proof (cases r)
  case (Succeeded c f)
  show ?thesis
  proof (cases "completes br (Succeeded c f)")
    case True
    then obtain blob where "buildBlob br a c f = Inr blob"
      using buildBlob_completes by blast
    then show ?thesis
      using True
      by (simp add: Succeeded contentCallback_flag_completes effectsOf_def nextState_Cons
          nextState_Nil)
  next
    case False
    then show ?thesis
      by (simp add: Succeeded buildBlob_aborts contentCallback_flag_aborts effectsOf_def
          nextState_Nil)
  qed
next
  case (Failed e)
  then show ?thesis
    by (simp add: contentCallback_flag_def effectsOf_def completes_def nextState_Cons
        nextState_Nil)
qed

lemma nextState_hostAnswers_contentCallback:
  "nextState st (hostAnswers g (requestsFor (contentCallback br) order)) = st"
proof (induction order arbitrary: st)
  case Nil
  show ?case by (simp add: hostAnswers_Nil nextState_Nil)
next
  case (Cons a order)
  show ?case
    using Cons by (simp add: hostAnswers_Cons nextState_append nextState_contentCallback)
qed

lemma nextState_hostAnswers_contentCallback_flag:
  "nextState st (hostAnswers g (requestsFor (contentCallback_flag br) order)) =
     (if filter (\<lambda>a. completes br (g (id_d a))) order = [] then st
      else st\<lparr>isSubmissionInitiated :=
                 isSucceeded (g (id_d (last (filter (\<lambda>a. completes br (g (id_d a)))
                       order))))\<rparr>)"
proof (induction order arbitrary: st)
  case Nil
  show ?case by (simp add: hostAnswers_Nil nextState_Nil)
next
  case (Cons a order)
  show ?case
    using Cons
    by (simp add: hostAnswers_Cons nextState_append nextState_contentCallback_flag)
qed

lemma last_filter_last:
  "xs \<noteq> [] \<Longrightarrow> P (last xs) \<Longrightarrow> filter P xs \<noteq> [] \<and>
        last (filter P xs) = last xs"
  by (cases xs rule: rev_cases) auto

lemma same_outcomes_same_state:
  assumes "\<forall>a\<in>set order. completes br (g (id_d a)) = completes br (g' (id_d a))
             \<and> isSucceeded (g (id_d a)) = isSucceeded (g' (id_d a))"
  shows "nextState st (hostAnswers g (requestsFor (contentCallback_flag br) order)) =
         nextState st (hostAnswers g' (requestsFor (contentCallback_flag br) order))"
proof -
  have same: "filter (\<lambda>a. completes br (g (id_d a))) order =
              filter (\<lambda>a. completes br (g' (id_d a))) order"
    using assms by (intro filter_cong) auto
  show ?thesis
  proof (cases "filter (\<lambda>a. completes br (g' (id_d a))) order = []")
    case True
    then show ?thesis
      by (simp add: nextState_hostAnswers_contentCallback_flag same)
  next
    case False
    then have "last (filter (\<lambda>a. completes br (g' (id_d a))) order)
                 \<in> set (filter (\<lambda>a. completes br (g' (id_d a))) order)"
      by (rule last_in_set)
    then have "last (filter (\<lambda>a. completes br (g' (id_d a))) order) \<in> set order"
      by simp
    then have "isSucceeded (g (id_d (last (filter (\<lambda>a. completes br (g' (id_d a)))
          order)))) =
               isSucceeded (g' (id_d (last (filter (\<lambda>a. completes br (g' (id_d a)))
                     order))))"
      using assms by blast
    then show ?thesis
      using False by (simp add: nextState_hostAnswers_contentCallback_flag same)
  qed
qed

lemma downloadAttachments_Some:
  "item_attachments item = Some list \<Longrightarrow>
   downloadAttachments br item =
     Inr (map (\<lambda>attachment. GetAttachmentContentAsync (id_d attachment)
                              (contentCallback br attachment)) list)"
  by (simp add: downloadAttachments_def try_catch_def)

lemma downloadAttachments_AttachmentProcess_Some:
  "item_attachments item = Some list \<Longrightarrow>
   downloadAttachments_AttachmentProcess br item =
     Inr (map (\<lambda>attachment. GetAttachmentContentAsync (id_d attachment)
                              (contentCallback_flag br attachment)) list)"
  by (simp add: downloadAttachments_AttachmentProcess_def try_catch_def)

lemma downloadAttachments_consent_Some:
  "item_attachments item = Some list \<Longrightarrow>
   downloadAttachments_consent br st item =
     Inr (map (\<lambda>attachment. GetAttachmentContentAsync (id_d attachment)
                              (contentCallback_flag br attachment)) list
          @ downloadMetaData br (metaData st))"
  by (simp add: downloadAttachments_consent_def try_catch_def)

lemma requestsOf_handlers:
  assumes "item_attachments item = Some list"
  shows "requestsOf (downloadAttachments br item) = requestsFor (contentCallback br) list"
    and "requestsOf (downloadAttachments_AttachmentProcess br item) =
           requestsFor (contentCallback_flag br) list"
    and "requestsOf (downloadAttachments_consent br st item) =
           requestsFor (contentCallback_flag br) list"
  using assms
  by (simp_all add: downloadAttachments_Some downloadAttachments_AttachmentProcess_Some
      downloadAttachments_consent_Some requestsOf_def effectsOf_def requestsFor_def
      requests_requests requests_append downloadMetaData_def)

lemma after_downloadAttachments: "after st (downloadAttachments br item) = st"
  by (cases "item_attachments item")
    (simp_all add: downloadAttachments_def try_catch_def after_def nextState_requests
      nextState_Cons nextState_Nil)

lemma after_downloadAttachments_AttachmentProcess:
  "after st (downloadAttachments_AttachmentProcess br item) = st"
  by (cases "item_attachments item")
    (simp_all add: downloadAttachments_AttachmentProcess_def try_catch_def after_def
      nextState_requests nextState_Cons nextState_Nil)

lemma nextState_downloadMetaData: "nextState st (downloadMetaData br md) = st"
  by (simp add: downloadMetaData_def Let_def nextState_Cons nextState_Nil)

lemma after_downloadAttachments_consent: "after st' (downloadAttachments_consent br st item) = st'"
  by (cases "item_attachments item")
    (simp_all add: downloadAttachments_consent_def try_catch_def after_def nextState_requests
      nextState_append nextState_downloadMetaData nextState_Cons nextState_Nil)

lemma metaData_nextState:
  "(\<And>m. SetMetaData m \<notin> set t) \<Longrightarrow> metaData (nextState st t) = metaData
        st"
proof (induction t arbitrary: st)
  case Nil
  show ?case by (simp add: nextState_Nil)
next
  case (Cons e t)
  have "metaData (setState st e) = metaData st"
    using Cons.prems by (cases e) auto
  moreover have "metaData (nextState (setState st e) t) = metaData (setState st e)"
    using Cons.prems by (intro Cons.IH) auto
  ultimately show ?case by (simp add: nextState_Cons)
qed

lemma fetchAttachmentMetadata_trace:
  "\<exists>t. fetchAttachmentMetadata st item = Inr t \<and> (\<forall>m. SetMetaData m \<notin>
        set t)"
  by (cases "item_attachments item")
    (auto simp add: fetchAttachmentMetadata_def try_catch_def Let_def)

lemma attachments_getMetadata:
  "item_to item \<noteq> [] \<Longrightarrow>
   attachments (after st (getMetadata st item)) =
     attachments (after st (fetchAttachmentMetadata st item))"
  by (cases "item_attachments item"; cases "item_to item")
    (simp_all add: getMetadata_def fetchAttachmentMetadata_def try_catch_def after_def Let_def
      nextState_Cons nextState_Nil nextState_append nextState_SetAttachments)

lemma storedFromItem_getMetadata:
  assumes "storedFromItem item st"
  shows "storedFromItem item (after st (getMetadata st item))"
proof (cases "item_to item")
  case Nil
  then show ?thesis using assms by (simp add: getMetadata_def after_def)
next
  case (Cons to0 rest)
  then have "attachments (after st (getMetadata st item)) =
      attachments (after st (fetchAttachments st item))"
    by (simp add: attachments_getMetadata fetchAttachmentMetadata_eq)
  then show ?thesis
    using storedFromItem_fetchAttachments [OF assms]
    by (auto simp add: storedFromItem_def split: option.splits)
qed

lemma requests_keys_stored:
  assumes "storedFromItem item st" and "attachments st \<noteq> []"
  shows "map (\<lambda>attachment. id_d attachment) (the (item_attachments item)) =
           map id_a (attachments st)
       \<and> item_attachments item \<noteq> None"
  using assms by (auto simp add: storedFromItem_def comp_def split: option.splits)

section \<open>The claims\<close>

text \<open>
  C1. In each variant of the fetch operation the flag \<^verbatim>\<open>isAttachmentFetched\<close> is set to
  \<^verbatim>\<open>attachments.length > 0\<close> evaluated on the \<^verbatim>\<open>attachments\<close> state as it was before
  the updates of the enumeration are applied. Hence, for an item that has attachments,
  the first invocation from the empty state sets the flag to false, although the
  next state holds the freshly enumerated descriptors.
\<close>

theorem fetch_flag_from_stale_state:
  assumes "item_attachments item = Some list"
  shows "isAttachmentFetched (after st (fetchAttachments st item)) =
           Some (length (attachments st) > 0)
       \<and> isAttachmentFetched (after st (fetchAttachments_AttachmentProcess st item)) =
           Some (length (attachments st) > 0)
       \<and> isAttachmentFetched (after st (fetchAttachmentMetadata st item)) =
           Some (length (attachments st) > 0)
       \<and> (attachments st = [] \<and> list \<noteq> [] \<longrightarrow>
            isAttachmentFetched (after st (fetchAttachments st item)) = Some False
          \<and> isAttachmentFetched (after st (fetchAttachments_AttachmentProcess st item)) =
                Some False
          \<and> isAttachmentFetched (after st (fetchAttachmentMetadata st item)) = Some False
          \<and> attachments (after st (fetchAttachments st item)) =
              map (\<lambda>attachment. \<lparr>id_a = id_d attachment, name_a = name_d
                    attachment\<rparr>) list
          \<and> attachments (after st (fetchAttachments_AttachmentProcess st item)) =
              map (\<lambda>attachment. \<lparr>id_a = id_d attachment, name_a = name_d
                    attachment\<rparr>) list
          \<and> attachments (after st (fetchAttachmentMetadata st item)) =
              map (\<lambda>attachment. \<lparr>id_a = id_d attachment, name_a = name_d
                    attachment\<rparr>) list
          \<and> attachments (after st (fetchAttachments st item)) \<noteq> [])"
  using assms
  by (simp add: fetchAttachmentMetadata_eq fetchAttachments_AttachmentProcess_eq
      after_fetchAttachments forEach_push_eq)

theorem fetch_flag_from_stale_state_witness:
  "item_attachments exampleItem = Some [report_pdf, notes_txt]
   \<and> attachments initialState = []
   \<and> isAttachmentFetched (after initialState (fetchAttachments initialState exampleItem)) =
         Some False
   \<and> isAttachmentFetched (after initialState (fetchAttachments_AttachmentProcess initialState
         exampleItem))
       = Some False
   \<and> isAttachmentFetched (after initialState (fetchAttachmentMetadata initialState
         exampleItem))
       = Some False
   \<and> attachments (after initialState (fetchAttachments initialState exampleItem)) =
        [\<lparr>id_a = ''AAMkAD1'', name_a = ''report.pdf''\<rparr>, \<lparr>id_a = ''AAMkAD2'', name_a = ''notes.txt''\<rparr>]"
  using fetch_flag_from_stale_state [of exampleItem "[report_pdf, notes_txt]" initialState]
  by (simp add: exampleItem_def initialState_def report_pdf_def notes_txt_def)



text \<open>
  C3. When the enumeration of the host's attachment list throws, the fetch operation
  catches the exception: it sets \<^verbatim>\<open>isAttachmentFetched\<close> to false, logs the error to the
  console, and does nothing else (no further request, no retry); the \<^verbatim>\<open>attachments\<close>
  state is unchanged and the handler returns normally. With the flag false, the message
  \<^verbatim>\<open>No attachments found in this email\<close> is rendered when \<^verbatim>\<open>attachments\<close> is empty.
\<close>

theorem fetch_catches_enumeration_error:
  assumes "item_attachments item = None"
  shows "fetchAttachments st item =
           Inr [SetIsAttachmentFetched False,
                ConsoleError ''Error fetching attachments:'' (Caught TypeError)]
       \<and> fetchAttachments_AttachmentProcess st item =
           Inr [SetIsAttachmentFetched False,
                ConsoleError ''Error fetching attachments:'' (Caught TypeError)]
       \<and> fetchAttachmentMetadata st item =
           Inr [SetIsAttachmentFetched False,
                ConsoleError ''Error fetching attachments:'' (Caught TypeError)]
       \<and> after st (fetchAttachments st item) = st\<lparr>isAttachmentFetched := Some
             False\<rparr>
       \<and> after st (fetchAttachments_AttachmentProcess st item) =
             st\<lparr>isAttachmentFetched := Some False\<rparr>
       \<and> after st (fetchAttachmentMetadata st item) = st\<lparr>isAttachmentFetched := Some
             False\<rparr>
       \<and> attachments (after st (fetchAttachments st item)) = attachments st
       \<and> (NoAttachmentsMessage \<in> set (render_TextInsertion (after st (fetchAttachments st
             item)))
            \<longleftrightarrow> attachments st = [])
       \<and> (NoAttachmentsMessage \<in>
            set (render_processEmailData (after st (fetchAttachmentMetadata st item)))
            \<longleftrightarrow> attachments st = [])"
proof -
  have trace: "fetchAttachments st item =
           Inr [SetIsAttachmentFetched False,
                ConsoleError ''Error fetching attachments:'' (Caught TypeError)]"
    using assms by (rule fetchAttachments_None)
  show ?thesis
    by (simp add: fetchAttachmentMetadata_eq fetchAttachments_AttachmentProcess_eq trace
        after_def nextState_Cons nextState_Nil render_TextInsertion_def
        render_processEmailData_def)
qed

theorem fetch_catches_enumeration_error_witness:
  "item_attachments itemWithoutList = None
   \<and> fetchAttachments initialState itemWithoutList =
       Inr [SetIsAttachmentFetched False,
            ConsoleError ''Error fetching attachments:'' (Caught TypeError)]
   \<and> isAttachmentFetched (after initialState (fetchAttachments initialState itemWithoutList))
         = Some False
   \<and> attachments (after initialState (fetchAttachments initialState itemWithoutList)) = []
   \<and> NoAttachmentsMessage \<in>
       set (render_TextInsertion (after initialState (fetchAttachments initialState
             itemWithoutList)))"
proof -
  have none: "item_attachments itemWithoutList = None"
    by (simp add: itemWithoutList_def)
  have empty: "attachments initialState = []"
    by (simp add: initialState_def)
  note caught = fetch_catches_enumeration_error [OF none, of initialState]
  have trace: "fetchAttachments initialState itemWithoutList =
       Inr [SetIsAttachmentFetched False,
            ConsoleError ''Error fetching attachments:'' (Caught TypeError)]"
    using caught by blast
  have next_state: "after initialState (fetchAttachments initialState itemWithoutList) =
       initialState\<lparr>isAttachmentFetched := Some False\<rparr>"
    using caught by blast
  have flag: "isAttachmentFetched (after initialState (fetchAttachments initialState
        itemWithoutList))
       = Some False"
    unfolding next_state by simp
  have kept: "attachments (after initialState (fetchAttachments initialState itemWithoutList)) = []"
    unfolding next_state by (simp add: empty)
  have message: "NoAttachmentsMessage \<in>
       set (render_TextInsertion (after initialState (fetchAttachments initialState
             itemWithoutList)))"
    using caught empty by blast
  show ?thesis
    using none trace flag kept message by blast
qed

text \<open>
  C4. In the consent-gated component the Proceed button is rendered exactly when the
  \<^verbatim>\<open>attachments\<close> state is empty, and then its \<^verbatim>\<open>disabled\<close> expression
  \<^verbatim>\<open>!isConsent && attachments.length > 0\<close> is false whatever \<^verbatim>\<open>isConsent\<close> is; so a click
  on it runs \<^verbatim>\<open>getMetadata\<close>, also with the consent checkbox unchecked.
\<close>

theorem proceed_never_disabled:
  "(Button ''Proceed'' d \<in> set (render_processEmailData st) \<longleftrightarrow> attachments st = [] \<and> \<not> d)
   \<and> (attachments st = [] \<longrightarrow> click_Proceed st item = Some (getMetadata st
         item))"
  by (auto simp add: render_processEmailData_def click_Proceed_def)

theorem proceed_never_disabled_witness:
  "isConsent initialState = False
   \<and> attachments initialState = []
   \<and> Button ''Proceed'' False \<in> set (render_processEmailData initialState)
   \<and> click_Proceed initialState exampleItem = Some (getMetadata initialState exampleItem)"
  using proceed_never_disabled [of False initialState exampleItem]
  by (simp add: initialState_def)

text \<open>
  C5. On an item with a To recipient, \<^verbatim>\<open>getMetadata\<close> calls \<^verbatim>\<open>setMetaData\<close> once, with
  the record of six strings read from the item: sender address, address of the first To
  recipient, subject, conversation identifier, item identifier, and the creation time
  in milliseconds since the epoch written in decimal digits. Nothing else is stored in
  \<^verbatim>\<open>metaData\<close>: the rest of the trace is that of \<^verbatim>\<open>fetchAttachmentMetadata\<close>, which
  never sets it.
\<close>

theorem metadata_has_six_item_fields:
  assumes "item_to item = to0 # rest"
  shows "\<exists>t. fetchAttachmentMetadata st item = Inr t
           \<and> (\<forall>m. SetMetaData m \<notin> set t)
           \<and> getMetadata st item =
               Inr (SetMetaData
                      \<lparr>sender = emailAddress (item_sender item),
                       to = emailAddress to0,
                       subject = item_subject item,
                       conversationId = item_conversationId item,
                       itemId = item_itemId item,
                       timeStamp = toString (item_dateTimeCreated item)\<rparr> # t)
           \<and> metaData (after st (getMetadata st item)) =
               Some \<lparr>sender = emailAddress (item_sender item),
                     to = emailAddress to0,
                     subject = item_subject item,
                     conversationId = item_conversationId item,
                     itemId = item_itemId item,
                     timeStamp = toString (item_dateTimeCreated item)\<rparr>
           \<and> (0 \<le> item_dateTimeCreated item \<longrightarrow>
                int (fromDigits (toString (item_dateTimeCreated item))) = item_dateTimeCreated
                      item)"
proof -
  obtain t where t: "fetchAttachmentMetadata st item = Inr t" "\<forall>m. SetMetaData m \<notin>
        set t"
    using fetchAttachmentMetadata_trace by blast
  have "metaData (nextState (setState st (SetMetaData M)) t) = Some M" for M
    using t(2) by (simp add: metaData_nextState)
  then show ?thesis
    using assms t
    by (simp add: getMetadata_def after_def nextState_Cons toString_def fromDigits_digits
        del: digits.simps)
qed

theorem metadata_has_six_item_fields_witness:
  "item_to exampleItem = [\<lparr>emailAddress = ''bob@example.com''\<rparr>]
   \<and> metaData (after initialState (getMetadata initialState exampleItem)) = Some
         exampleMetadata
   \<and> timeStamp exampleMetadata = ''1700000000000''
   \<and> int (fromDigits ''1700000000000'') = 1700000000000"
  using metadata_has_six_item_fields
    [of exampleItem "\<lparr>emailAddress = ''bob@example.com''\<rparr>" "[]" initialState]
  by (auto simp add: exampleItem_def exampleMetadata_def toString_def)

text \<open>
  C6, as stated, fails: a fetch can succeed and trigger no download. A host that reports
  as Base64 a content \<^verbatim>\<open>atob\<close> rejects makes the callback throw before the anchor is
  made; here both fetches of the example item succeed and nothing is downloaded.
\<close>

theorem succeeded_fetch_without_download_counterexample:
  "item_attachments exampleItem = Some [report_pdf, notes_txt]
   \<and> isSucceeded (undecodableContent (id_d report_pdf))
   \<and> isSucceeded (undecodableContent (id_d notes_txt))
   \<and> contentCallback exampleBrowser report_pdf (undecodableContent (id_d report_pdf)) =
       Inl InvalidCharacterError
   \<and> map fst (requestsOf (downloadAttachments exampleBrowser exampleItem)) =
       [''AAMkAD1'', ''AAMkAD2'']
   \<and> downloads (hostAnswers undecodableContent
         (requestsOf (downloadAttachments exampleBrowser exampleItem))) = []"
  by (simp add: exampleItem_def undecodableContent_def exampleBrowser_def report_pdf_def
      notes_txt_def downloadAttachments_def try_catch_def requestsOf_def effectsOf_def
      hostAnswers_def contentCallback_def buildBlob_def)

text \<open>
  C6, amended. On an item whose attachment list can be enumerated,
  \<^verbatim>\<open>downloadAttachments\<close> issues one content request per entry of the list, in list
  order, each keyed by the entry's identifier and with the callback closed over that
  entry; the handler itself downloads nothing (in the consent-gated component, nothing but
  the metadata file), and the callbacks issue no request. A callback given a successful
  result whose blob can be built clicks one anchor, whose file name is the display name of
  its attachment; a callback given a failure, or aborted by \<^verbatim>\<open>atob\<close>, clicks none. So, in
  whatever order the host answers the requests, the downloaded file names are the names
  of the attachments whose fetch succeeded and whose callback ran to its end, one
  download each; when no callback is aborted, these are all the attachments whose fetch
  succeeded.
\<close>

theorem one_fetch_per_attachment_one_download_per_completed_success:
  assumes "item_attachments item = Some list" and "mset order = mset list"
  shows "requestsOf (downloadAttachments br item) = requestsFor (contentCallback br) list
       \<and> requestsOf (downloadAttachments_AttachmentProcess br item) = requestsFor
             (contentCallback_flag br) list
       \<and> requestsOf (downloadAttachments_consent br st item) = requestsFor
             (contentCallback_flag br) list
       \<and> map fst (requestsOf (downloadAttachments br item)) = map id_d list
       \<and> map fst (requestsOf (downloadAttachments_AttachmentProcess br item)) = map id_d list
       \<and> map fst (requestsOf (downloadAttachments_consent br st item)) = map id_d list
       \<and> downloads (effectsOf (downloadAttachments br item)) = []
       \<and> downloads (effectsOf (downloadAttachments_AttachmentProcess br item)) = []
       \<and> downloads (effectsOf (downloadAttachments_consent br st item)) = downloads
             (downloadMetaData br (metaData st))
       \<and> mset (requestsFor (contentCallback br) order) = mset (requestsOf
             (downloadAttachments br item))
       \<and> mset (requestsFor (contentCallback_flag br) order) = mset (requestsOf
             (downloadAttachments_AttachmentProcess br item))
       \<and> mset (requestsFor (contentCallback_flag br) order) = mset (requestsOf
             (downloadAttachments_consent br st item))
       \<and> (buildBlob br a c f = Inr blob \<longrightarrow> contentCallback br a (Succeeded c
             f) = Inr [AnchorClick blob (name_d a)] \<and> contentCallback_flag br a (Succeeded c
             f) = Inr [AnchorClick blob (name_d a), SetIsSubmissionInitiated True])
       \<and> (buildBlob br a c f = Inl err \<longrightarrow> contentCallback br a (Succeeded c f)
             = Inl err \<and> contentCallback_flag br a (Succeeded c f) = Inl err)
       \<and> downloads (effectsOf (contentCallback br a (Failed e))) = []
       \<and> downloads (effectsOf (contentCallback_flag br a (Failed e))) = []
       \<and> map snd (downloads (hostAnswers g (requestsFor (contentCallback br) order))) = map
             name_d (filter (\<lambda>x. isSucceeded (g (id_d x)) \<and> completes br (g (id_d
             x))) order)
       \<and> map snd (downloads (hostAnswers g (requestsFor (contentCallback_flag br) order))) =
             map name_d (filter (\<lambda>x. isSucceeded (g (id_d x)) \<and> completes br (g (id_d
             x))) order)
       \<and> mset (map snd (downloads (hostAnswers g (requestsFor (contentCallback br) order))))
             = mset (map name_d (filter (\<lambda>x. isSucceeded (g (id_d x)) \<and> completes br
             (g (id_d x))) list))
       \<and> mset (map snd (downloads (hostAnswers g (requestsFor (contentCallback_flag br)
             order)))) = mset (map name_d (filter (\<lambda>x. isSucceeded (g (id_d x)) \<and>
             completes br (g (id_d x))) list))
       \<and> requests (hostAnswers g (requestsFor (contentCallback br) order)) = []
       \<and> requests (hostAnswers g (requestsFor (contentCallback_flag br) order)) = []
       \<and> ((\<forall>x\<in>set list. completes br (g (id_d x))) \<longrightarrow> mset (map
             snd (downloads (hostAnswers g (requestsFor (contentCallback br) order)))) = mset (map
             name_d (filter (\<lambda>x. isSucceeded (g (id_d x))) list)) \<and> mset (map snd
             (downloads (hostAnswers g (requestsFor (contentCallback_flag br) order)))) = mset
             (map name_d (filter (\<lambda>x. isSucceeded (g (id_d x))) list)))"
proof -
  have names: "map snd (downloads (hostAnswers g (requestsFor (contentCallback br) order))) = map
        name_d (filter (\<lambda>x. isSucceeded (g (id_d x)) \<and> completes br (g (id_d x)))
        order)"
    by (rule download_names_hostAnswers) (rule names_contentCallback)
  have names_flag: "map snd (downloads (hostAnswers g (requestsFor (contentCallback_flag br)
        order))) = map name_d (filter (\<lambda>x. isSucceeded (g (id_d x)) \<and> completes br (g
        (id_d x))) order)"
    by (rule download_names_hostAnswers) (rule names_contentCallback_flag)
  have all_complete: "(\<forall>x\<in>set list. completes br (g (id_d x))) \<longrightarrow>
      mset (map name_d (filter (\<lambda>x. isSucceeded (g (id_d x)) \<and> completes br (g (id_d
            x))) list)) =
      mset (map name_d (filter (\<lambda>x. isSucceeded (g (id_d x))) list))"
  proof
    assume "\<forall>x\<in>set list. completes br (g (id_d x))"
    then have "filter (\<lambda>x. isSucceeded (g (id_d x)) \<and> completes br (g (id_d x))) list
          = filter (\<lambda>x. isSucceeded (g (id_d x))) list"
      by (auto intro: filter_cong)
    then show "mset (map name_d (filter (\<lambda>x. isSucceeded (g (id_d x)) \<and> completes br
          (g (id_d x))) list)) =
      mset (map name_d (filter (\<lambda>x. isSucceeded (g (id_d x))) list))"
      by (simp only:)
  qed
  have "requestsOf (downloadAttachments br item) = requestsFor (contentCallback br) list"
    using assms(1) by (rule requestsOf_handlers)
  have "requestsOf (downloadAttachments_AttachmentProcess br item) = requestsFor
        (contentCallback_flag br) list"
    using assms(1) by (rule requestsOf_handlers)
  have "requestsOf (downloadAttachments_consent br st item) = requestsFor (contentCallback_flag
        br) list"
    using assms(1) by (rule requestsOf_handlers)
  have "map fst (requestsOf (downloadAttachments br item)) = map id_d list"
    by (simp add: requestsOf_handlers [OF assms(1)] requestsFor_def comp_def)
  have "map fst (requestsOf (downloadAttachments_AttachmentProcess br item)) = map id_d list"
    by (simp add: requestsOf_handlers [OF assms(1)] requestsFor_def comp_def)
  have "map fst (requestsOf (downloadAttachments_consent br st item)) = map id_d list"
    by (simp add: requestsOf_handlers [OF assms(1)] requestsFor_def comp_def)
  have "downloads (effectsOf (downloadAttachments br item)) = []"
    by (simp add: downloadAttachments_Some [OF assms(1)] effectsOf_def downloads_requests)
  have "downloads (effectsOf (downloadAttachments_AttachmentProcess br item)) = []"
    by (simp add: downloadAttachments_AttachmentProcess_Some [OF assms(1)] effectsOf_def
          downloads_requests)
  have "downloads (effectsOf (downloadAttachments_consent br st item)) = downloads
        (downloadMetaData br (metaData st))"
    by (simp add: downloadAttachments_consent_Some [OF assms(1)] effectsOf_def downloads_requests
          downloads_append)
  have "mset (requestsFor (contentCallback br) order) = mset (requestsOf (downloadAttachments br
        item))"
    by (simp only: requestsOf_handlers [OF assms(1)] requestsFor_permutation [OF assms(2)])
  have "mset (requestsFor (contentCallback_flag br) order) = mset (requestsOf
        (downloadAttachments_AttachmentProcess br item))"
    by (simp only: requestsOf_handlers [OF assms(1)] requestsFor_permutation [OF assms(2)])
  have "mset (requestsFor (contentCallback_flag br) order) = mset (requestsOf
        (downloadAttachments_consent br st item))"
    by (simp only: requestsOf_handlers [OF assms(1)] requestsFor_permutation [OF assms(2)])
  have "buildBlob br a c f = Inr blob \<longrightarrow> contentCallback br a (Succeeded c f) = Inr
        [AnchorClick blob (name_d a)] \<and> contentCallback_flag br a (Succeeded c f) = Inr
        [AnchorClick blob (name_d a), SetIsSubmissionInitiated True]"
    by (simp add: contentCallback_completes contentCallback_flag_completes)
  have "buildBlob br a c f = Inl err \<longrightarrow> contentCallback br a (Succeeded c f) = Inl
        err \<and> contentCallback_flag br a (Succeeded c f) = Inl err"
    by (simp add: contentCallback_aborts contentCallback_flag_aborts)
  have "downloads (effectsOf (contentCallback br a (Failed e))) = []"
    by (simp add: contentCallback_def effectsOf_def)
  have "downloads (effectsOf (contentCallback_flag br a (Failed e))) = []"
    by (simp add: contentCallback_flag_def effectsOf_def)
  have "map snd (downloads (hostAnswers g (requestsFor (contentCallback br) order))) = map name_d
        (filter (\<lambda>x. isSucceeded (g (id_d x)) \<and> completes br (g (id_d x))) order)"
    by (rule download_names_hostAnswers) (rule names_contentCallback)
  have "map snd (downloads (hostAnswers g (requestsFor (contentCallback_flag br) order))) = map
        name_d (filter (\<lambda>x. isSucceeded (g (id_d x)) \<and> completes br (g (id_d x)))
        order)"
    by (rule download_names_hostAnswers) (rule names_contentCallback_flag)
  have "mset (map snd (downloads (hostAnswers g (requestsFor (contentCallback br) order)))) = mset
        (map name_d (filter (\<lambda>x. isSucceeded (g (id_d x)) \<and> completes br (g (id_d
        x))) list))"
    by (simp only: names names_permutation [OF assms(2)])
  have "mset (map snd (downloads (hostAnswers g (requestsFor (contentCallback_flag br) order)))) =
        mset (map name_d (filter (\<lambda>x. isSucceeded (g (id_d x)) \<and> completes br (g
        (id_d x))) list))"
    by (simp only: names_flag names_permutation [OF assms(2)])
  have "requests (hostAnswers g (requestsFor (contentCallback br) order)) = []"
    by (rule requests_hostAnswers) (rule requests_contentCallback)
  have "requests (hostAnswers g (requestsFor (contentCallback_flag br) order)) = []"
    by (rule requests_hostAnswers) (rule requests_contentCallback_flag)
  have "(\<forall>x\<in>set list. completes br (g (id_d x))) \<longrightarrow> mset (map snd
        (downloads (hostAnswers g (requestsFor (contentCallback br) order)))) = mset (map name_d
        (filter (\<lambda>x. isSucceeded (g (id_d x))) list)) \<and> mset (map snd (downloads
        (hostAnswers g (requestsFor (contentCallback_flag br) order)))) = mset (map name_d (filter
        (\<lambda>x. isSucceeded (g (id_d x))) list))"
    using all_complete by (simp only: names names_flag names_permutation [OF assms(2)] simp_thms)
  show ?thesis
    by (intro conjI) fact+
qed

theorem one_fetch_per_attachment_one_download_per_completed_success_witness:
  "item_attachments exampleItem = Some [report_pdf, notes_txt]
   \<and> mset [notes_txt, report_pdf] = mset [report_pdf, notes_txt]
   \<and> map fst (requestsOf (downloadAttachments exampleBrowser exampleItem)) =
       [''AAMkAD1'', ''AAMkAD2'']
   \<and> map snd (downloads (hostAnswers exampleContent
         (requestsFor (contentCallback exampleBrowser) [notes_txt, report_pdf]))) = [''notes.txt'']
   \<and> map snd (downloads (hostAnswers undecodableContent
         (requestsFor (contentCallback exampleBrowser) [notes_txt, report_pdf]))) = []"
proof -
  have list: "item_attachments exampleItem = Some [report_pdf, notes_txt]"
    by (simp add: exampleItem_def)
  have order: "mset [notes_txt, report_pdf] = mset [report_pdf, notes_txt]"
    by simp
  note run = one_fetch_per_attachment_one_download_per_completed_success
    [OF list order, of exampleBrowser fetchedState report_pdf "''aGk=''" Base64
        "\<lparr>blobParts = [Uint8Array [104, 105]], type_b = ''application/octet-stream''\<rparr>"
        InvalidCharacterError "''timeout''" exampleContent]
  note aborted = one_fetch_per_attachment_one_download_per_completed_success
    [OF list order, of exampleBrowser fetchedState report_pdf "''aGk=''" Base64
        "\<lparr>blobParts = [Uint8Array [104, 105]], type_b = ''application/octet-stream''\<rparr>"
        InvalidCharacterError "''timeout''" undecodableContent]
  have "map fst (requestsOf (downloadAttachments exampleBrowser exampleItem)) =
      map id_d [report_pdf, notes_txt]"
    using run by blast
  then have keys: "map fst (requestsOf (downloadAttachments exampleBrowser exampleItem)) =
       [''AAMkAD1'', ''AAMkAD2'']"
    by (simp add: report_pdf_def notes_txt_def)
  have "map snd (downloads (hostAnswers exampleContent
         (requestsFor (contentCallback exampleBrowser) [notes_txt, report_pdf]))) =
        map name_d (filter (\<lambda>a. isSucceeded (exampleContent (id_d a))
                                 \<and> completes exampleBrowser (exampleContent (id_d a)))
                      [notes_txt, report_pdf])"
    using run by blast
  then have names: "map snd (downloads (hostAnswers exampleContent
         (requestsFor (contentCallback exampleBrowser) [notes_txt, report_pdf]))) = [''notes.txt'']"
    by (simp add: exampleContent_def completes_def exampleBrowser_def report_pdf_def
        notes_txt_def)
  have "map snd (downloads (hostAnswers undecodableContent
         (requestsFor (contentCallback exampleBrowser) [notes_txt, report_pdf]))) =
        map name_d (filter (\<lambda>a. isSucceeded (undecodableContent (id_d a))
                                 \<and> completes exampleBrowser (undecodableContent (id_d a)))
                      [notes_txt, report_pdf])"
    using aborted by blast
  then have none: "map snd (downloads (hostAnswers undecodableContent
         (requestsFor (contentCallback exampleBrowser) [notes_txt, report_pdf]))) = []"
    by (simp add: undecodableContent_def completes_def exampleBrowser_def)
  show ?thesis
    using list order keys names none by blast
qed

text \<open>
  C7. In the consent-gated component, an invocation of \<^verbatim>\<open>downloadAttachments\<close> in which
  the enumeration does not throw ends with \<^verbatim>\<open>downloadMetaData(metaData)\<close>:
  one anchor click, on a blob of type \<^verbatim>\<open>text/plain\<close> whose only part is
  \<^verbatim>\<open>JSON.stringify\<close> of the \<^verbatim>\<open>metaData\<close> state, under the file name \<^verbatim>\<open>metadata.txt\<close>.
  It is the only download of the handler itself.
\<close>

theorem consent_download_includes_metadata:
  "downloadMetaData br md =
     [AnchorClick \<lparr>blobParts = [Str (JSON_stringify br md)], type_b = ''text/plain''\<rparr>
        ''metadata.txt'']
   \<and> (item_attachments item = Some list \<longrightarrow>
        downloadAttachments_consent br st item =
          Inr (map (\<lambda>attachment. GetAttachmentContentAsync (id_d attachment)
                                   (contentCallback_flag br attachment)) list
               @ downloadMetaData br (metaData st))
      \<and> (\<exists>t. downloadAttachments_consent br st item = Inr t
            \<and> downloads t =
                [(\<lparr>blobParts = [Str (JSON_stringify br (metaData st))], type_b = ''text/plain''\<rparr>,
                  ''metadata.txt'')]))"
  by (simp add: downloadMetaData_def downloadAttachments_consent_def try_catch_def
      downloads_append downloads_requests)

theorem consent_download_includes_metadata_witness:
  "item_attachments exampleItem = Some [report_pdf, notes_txt]
   \<and> metaData fetchedState = Some exampleMetadata
   \<and> (\<exists>t. downloadAttachments_consent exampleBrowser fetchedState exampleItem = Inr t
         \<and> downloads t =
             [(\<lparr>blobParts = [Str (JSON_stringify exampleBrowser (Some exampleMetadata))],
                type_b = ''text/plain''\<rparr>, ''metadata.txt'')])"
proof -
  have list: "item_attachments exampleItem = Some [report_pdf, notes_txt]"
    by (simp add: exampleItem_def)
  have md: "metaData fetchedState = Some exampleMetadata"
    by (simp add: fetchedState_def)
  show ?thesis
    using list md
      consent_download_includes_metadata
        [of exampleBrowser None exampleItem "[report_pdf, notes_txt]" fetchedState]
    by (auto simp add: downloadMetaData_def)
qed

text \<open>
  C8. The \<^verbatim>\<open>attachments\<close> state holds, per attachment, the identifier and display name
  of the host's entry and nothing of its content: it is empty at first, and every
  operation keeps it either empty or equal to the descriptors of the item's list.
  \<^verbatim>\<open>downloadAttachments\<close> changes no state; its callbacks leave \<^verbatim>\<open>attachments\<close> and
  \<^verbatim>\<open>metaData\<close> as they were, and the state after the callbacks is the same for two hosts
  whose fetches succeed, fail and abort alike, whatever content they deliver. Whenever
  descriptors are stored, the keys of the content requests of \<^verbatim>\<open>downloadAttachments\<close>
  are the stored identifiers.
\<close>

theorem content_not_retained:
  "storedFromItem item initialState
   \<and> (storedFromItem item st \<longrightarrow>
        storedFromItem item (after st (fetchAttachments st item))
      \<and> storedFromItem item (after st (fetchAttachments_AttachmentProcess st item))
      \<and> storedFromItem item (after st (fetchAttachmentMetadata st item))
      \<and> storedFromItem item (after st (getMetadata st item)))
   \<and> after st (downloadAttachments br item) = st
   \<and> after st (downloadAttachments_AttachmentProcess br item) = st
   \<and> after st (downloadAttachments_consent br st item) = st
   \<and> nextState st (hostAnswers g (requestsFor (contentCallback br) order)) = st
   \<and> attachments (nextState st (hostAnswers g (requestsFor (contentCallback_flag br) order))) =
       attachments st
   \<and> metaData (nextState st (hostAnswers g (requestsFor (contentCallback_flag br) order))) =
       metaData st
   \<and> ((\<forall>a\<in>set order. completes br (g (id_d a)) = completes br (g' (id_d a))
                       \<and> isSucceeded (g (id_d a)) = isSucceeded (g' (id_d a)))
                             \<longrightarrow>
        nextState st (hostAnswers g (requestsFor (contentCallback_flag br) order)) =
        nextState st (hostAnswers g' (requestsFor (contentCallback_flag br) order)))
   \<and> (storedFromItem item st \<and> attachments st \<noteq> [] \<longrightarrow>
        map fst (requestsOf (downloadAttachments br item)) = map id_a (attachments st)
      \<and> map fst (requestsOf (downloadAttachments_AttachmentProcess br item)) =
          map id_a (attachments st)
      \<and> map fst (requestsOf (downloadAttachments_consent br st item)) =
          map id_a (attachments st)
      \<and> (\<exists>t. downloadAttachments br item = Inr t
            \<and> map fst (requests t) = map id_a (attachments st))
      \<and> (\<exists>t. downloadAttachments_AttachmentProcess br item = Inr t
            \<and> map fst (requests t) = map id_a (attachments st))
      \<and> (\<exists>t. downloadAttachments_consent br st item = Inr t
            \<and> map fst (requests t) = map id_a (attachments st)))"
proof -
  have 0: "storedFromItem item initialState"
    by (simp add: storedFromItem_def initialState_def)
  have 1: "storedFromItem item st \<longrightarrow>
        storedFromItem item (after st (fetchAttachments st item))
      \<and> storedFromItem item (after st (fetchAttachments_AttachmentProcess st item))
      \<and> storedFromItem item (after st (fetchAttachmentMetadata st item))
      \<and> storedFromItem item (after st (getMetadata st item))"
    by (simp add: storedFromItem_fetchAttachments storedFromItem_getMetadata
        fetchAttachmentMetadata_eq fetchAttachments_AttachmentProcess_eq)
  have 2: "attachments (nextState st (hostAnswers g (requestsFor (contentCallback_flag br)
        order))) =
       attachments st"
    by (simp add: nextState_hostAnswers_contentCallback_flag)
  have 3: "metaData (nextState st (hostAnswers g (requestsFor (contentCallback_flag br) order))) =
       metaData st"
    by (simp add: nextState_hostAnswers_contentCallback_flag)
  have 4: "(\<forall>a\<in>set order. completes br (g (id_d a)) = completes br (g' (id_d a))
                       \<and> isSucceeded (g (id_d a)) = isSucceeded (g' (id_d a)))
                             \<longrightarrow>
        nextState st (hostAnswers g (requestsFor (contentCallback_flag br) order)) =
        nextState st (hostAnswers g' (requestsFor (contentCallback_flag br) order))"
    using same_outcomes_same_state by blast
  have 5: "storedFromItem item st \<and> attachments st \<noteq> [] \<longrightarrow>
        map fst (requestsOf (downloadAttachments br item)) = map id_a (attachments st)
      \<and> (\<exists>t. downloadAttachments br item = Inr t
            \<and> map fst (requests t) = map id_a (attachments st))"
    using requests_keys_stored [of item st]
    by (auto simp add: downloadAttachments_def try_catch_def requests_requests comp_def
        requestsOf_def effectsOf_def)
  have 6: "storedFromItem item st \<and> attachments st \<noteq> [] \<longrightarrow>
        map fst (requestsOf (downloadAttachments_AttachmentProcess br item)) =
          map id_a (attachments st)
      \<and> (\<exists>t. downloadAttachments_AttachmentProcess br item = Inr t
            \<and> map fst (requests t) = map id_a (attachments st))"
    using requests_keys_stored [of item st]
    by (auto simp add: downloadAttachments_AttachmentProcess_def try_catch_def requests_requests
        comp_def requestsOf_def effectsOf_def)
  have 7: "storedFromItem item st \<and> attachments st \<noteq> [] \<longrightarrow>
        map fst (requestsOf (downloadAttachments_consent br st item)) =
          map id_a (attachments st)
      \<and> (\<exists>t. downloadAttachments_consent br st item = Inr t
            \<and> map fst (requests t) = map id_a (attachments st))"
    using requests_keys_stored [of item st]
    by (auto simp add: downloadAttachments_consent_def try_catch_def requests_requests
        requests_append downloadMetaData_def comp_def requestsOf_def effectsOf_def)
  have 8: "after st (downloadAttachments br item) = st
   \<and> after st (downloadAttachments_AttachmentProcess br item) = st
   \<and> after st (downloadAttachments_consent br st item) = st
   \<and> nextState st (hostAnswers g (requestsFor (contentCallback br) order)) = st"
    by (simp add: after_downloadAttachments after_downloadAttachments_AttachmentProcess
        after_downloadAttachments_consent nextState_hostAnswers_contentCallback)
  show ?thesis
    using 0 1 2 3 4 5 6 7 8 by blast
qed

theorem content_not_retained_witness:
  "storedFromItem exampleItem fetchedState
   \<and> attachments fetchedState \<noteq> []
   \<and> completes exampleBrowser (exampleContent (id_d report_pdf)) =
       completes exampleBrowser (otherContent (id_d report_pdf))
   \<and> completes exampleBrowser (exampleContent (id_d notes_txt)) =
       completes exampleBrowser (otherContent (id_d notes_txt))
   \<and> isSucceeded (exampleContent (id_d report_pdf)) = isSucceeded (otherContent (id_d
         report_pdf))
   \<and> isSucceeded (exampleContent (id_d notes_txt)) = isSucceeded (otherContent (id_d
         notes_txt))
   \<and> exampleContent ''AAMkAD2'' \<noteq> otherContent ''AAMkAD2''
   \<and> map fst (requestsOf (downloadAttachments exampleBrowser exampleItem)) =
       [''AAMkAD1'', ''AAMkAD2'']
   \<and> storedFromItem exampleItem initialState
   \<and> storedFromItem exampleItem (after initialState (fetchAttachments initialState
         exampleItem))
   \<and> nextState fetchedState (hostAnswers exampleContent
         (requestsFor (contentCallback_flag exampleBrowser) [report_pdf, notes_txt])) =
       nextState fetchedState (hostAnswers otherContent
         (requestsFor (contentCallback_flag exampleBrowser) [report_pdf, notes_txt]))
   \<and> attachments (nextState fetchedState (hostAnswers exampleContent
         (requestsFor (contentCallback_flag exampleBrowser) [report_pdf, notes_txt]))) =
       [\<lparr>id_a = ''AAMkAD1'', name_a = ''report.pdf''\<rparr>,
        \<lparr>id_a = ''AAMkAD2'', name_a = ''notes.txt''\<rparr>]"
proof -
  have stored: "storedFromItem exampleItem fetchedState"
    by (simp add: storedFromItem_def exampleItem_def fetchedState_def report_pdf_def notes_txt_def)
  have nonempty: "attachments fetchedState \<noteq> []"
    by (simp add: fetchedState_def)
  have ids: "map id_a (attachments fetchedState) = [''AAMkAD1'', ''AAMkAD2'']"
    by (simp add: fetchedState_def)
  have alike: "\<forall>a\<in>set [report_pdf, notes_txt].
         completes exampleBrowser (exampleContent (id_d a)) =
           completes exampleBrowser (otherContent (id_d a))
         \<and> isSucceeded (exampleContent (id_d a)) = isSucceeded (otherContent (id_d a))"
    by (simp add: exampleContent_def otherContent_def report_pdf_def notes_txt_def
        completes_def exampleBrowser_def)
  have differ: "exampleContent ''AAMkAD2'' \<noteq> otherContent ''AAMkAD2''"
    by (simp add: exampleContent_def otherContent_def)
  note submit = content_not_retained
    [of exampleItem fetchedState exampleBrowser exampleContent "[report_pdf, notes_txt]"
        otherContent]
  note fetch = content_not_retained
    [of exampleItem initialState exampleBrowser exampleContent "[report_pdf, notes_txt]"
        otherContent]
  have "map fst (requestsOf (downloadAttachments exampleBrowser exampleItem)) =
      map id_a (attachments fetchedState)"
    using submit stored nonempty by blast
  then have keys: "map fst (requestsOf (downloadAttachments exampleBrowser exampleItem)) =
       [''AAMkAD1'', ''AAMkAD2'']"
    by (simp add: ids)
  have init: "storedFromItem exampleItem initialState"
    using fetch by blast
  have fetched: "storedFromItem exampleItem (after initialState (fetchAttachments initialState
        exampleItem))"
    using fetch by blast
  have same: "nextState fetchedState (hostAnswers exampleContent
         (requestsFor (contentCallback_flag exampleBrowser) [report_pdf, notes_txt])) =
       nextState fetchedState (hostAnswers otherContent
         (requestsFor (contentCallback_flag exampleBrowser) [report_pdf, notes_txt]))"
    using submit alike by blast
  have "attachments (nextState fetchedState (hostAnswers exampleContent
         (requestsFor (contentCallback_flag exampleBrowser) [report_pdf, notes_txt]))) =
       attachments fetchedState"
    using submit by blast
  then have kept: "attachments (nextState fetchedState (hostAnswers exampleContent
         (requestsFor (contentCallback_flag exampleBrowser) [report_pdf, notes_txt]))) =
       [\<lparr>id_a = ''AAMkAD1'', name_a = ''report.pdf''\<rparr>,
        \<lparr>id_a = ''AAMkAD2'', name_a = ''notes.txt''\<rparr>]"
    by (simp add: fetchedState_def)
  have alike': "completes exampleBrowser (exampleContent (id_d report_pdf)) =
       completes exampleBrowser (otherContent (id_d report_pdf))
   \<and> completes exampleBrowser (exampleContent (id_d notes_txt)) =
       completes exampleBrowser (otherContent (id_d notes_txt))
   \<and> isSucceeded (exampleContent (id_d report_pdf)) = isSucceeded (otherContent (id_d
         report_pdf))
   \<and> isSucceeded (exampleContent (id_d notes_txt)) = isSucceeded (otherContent (id_d
         notes_txt))"
    using alike by simp
  show ?thesis
    using stored nonempty alike' differ keys init fetched same kept by blast
qed

text \<open>
  C9, as stated, fails: a callback given a successful result need not set the flag. When
  \<^verbatim>\<open>atob\<close> throws, \<^verbatim>\<open>setIsSubmissionInitiated(true)\<close> is not reached; here both fetches of
  the example item succeed, the callback answered last among them, and the flag is still
  false and no banner is shown.
\<close>

theorem succeeded_callback_leaves_flag_counterexample:
  "item_attachments exampleItem = Some [report_pdf, notes_txt]
   \<and> isSucceeded (undecodableContent (id_d report_pdf))
   \<and> isSucceeded (undecodableContent (id_d notes_txt))
   \<and> contentCallback_flag exampleBrowser notes_txt (undecodableContent (id_d notes_txt)) =
       Inl InvalidCharacterError
   \<and> \<not> isSubmissionInitiated
        (nextState (after fetchedState (downloadAttachments_consent exampleBrowser fetchedState
              exampleItem))
           (hostAnswers undecodableContent
              (requestsOf (downloadAttachments_consent exampleBrowser fetchedState exampleItem))))
   \<and> SuccessBanner \<notin> set (render_processEmailData
        (nextState (after fetchedState (downloadAttachments_consent exampleBrowser fetchedState
              exampleItem))
           (hostAnswers undecodableContent
              (requestsOf (downloadAttachments_consent exampleBrowser fetchedState exampleItem)))))"
  by (simp add: exampleItem_def undecodableContent_def exampleBrowser_def report_pdf_def
      notes_txt_def fetchedState_def downloadAttachments_consent_def try_catch_def
      downloadMetaData_def requestsOf_def effectsOf_def hostAnswers_def
      contentCallback_flag_def buildBlob_def after_def nextState_def
      render_processEmailData_def)

text \<open>
  C9, amended. In the two components with the submission flag, a content callback that
  runs to its end sets \<^verbatim>\<open>isSubmissionInitiated\<close> to true on success and to false on
  failure; one aborted by \<^verbatim>\<open>atob\<close> sets nothing. The requests answered are those
  \<^verbatim>\<open>downloadAttachments\<close> issued, one per attachment, in any order. After the handler and
  the host's answers, the flag, and with it the success banner, is the outcome of the
  callback that last ran to its end, and is unchanged when none did; when no callback is
  aborted this is the outcome of the request answered last. So a run in which some
  fetches failed ends with the banner shown whenever the request answered last succeeds
  and its callback runs to its end.
\<close>

theorem submission_flag_is_last_completed_callback:
  assumes "item_attachments item = Some list" and "mset order = mset list"
  shows "requestsOf (downloadAttachments_AttachmentProcess br item) = requestsFor
        (contentCallback_flag br) list
       \<and> requestsOf (downloadAttachments_consent br st item) = requestsFor
             (contentCallback_flag br) list
       \<and> mset (requestsFor (contentCallback_flag br) order) = mset (requestsOf
             (downloadAttachments_AttachmentProcess br item))
       \<and> mset (requestsFor (contentCallback_flag br) order) = mset (requestsOf
             (downloadAttachments_consent br st item))
       \<and> nextState st (effectsOf (contentCallback_flag br a r)) = (if completes br r then
             st\<lparr>isSubmissionInitiated := isSucceeded r\<rparr> else st)
       \<and> isSubmissionInitiated (nextState (after st (downloadAttachments_AttachmentProcess br
             item)) (hostAnswers g (requestsFor (contentCallback_flag br) order))) = (if filter
             (\<lambda>x. completes br (g (id_d x))) order = [] then isSubmissionInitiated st else
             isSucceeded (g (id_d (last (filter (\<lambda>x. completes br (g (id_d x))) order)))))
       \<and> isSubmissionInitiated (nextState (after st (downloadAttachments_consent br st item))
             (hostAnswers g (requestsFor (contentCallback_flag br) order))) = (if filter
             (\<lambda>x. completes br (g (id_d x))) order = [] then isSubmissionInitiated st else
             isSucceeded (g (id_d (last (filter (\<lambda>x. completes br (g (id_d x))) order)))))
       \<and> (SuccessBanner \<in> set (render_processEmailData (nextState (after st
             (downloadAttachments_consent br st item)) (hostAnswers g (requestsFor
             (contentCallback_flag br) order)))) \<longleftrightarrow> isSubmissionInitiated
             (nextState (after st (downloadAttachments_consent br st item)) (hostAnswers g
             (requestsFor (contentCallback_flag br) order))))
       \<and> ((\<forall>x\<in>set order. completes br (g (id_d x))) \<and> order \<noteq> []
             \<longrightarrow> isSubmissionInitiated (nextState (after st
             (downloadAttachments_AttachmentProcess br item)) (hostAnswers g (requestsFor
             (contentCallback_flag br) order))) = isSucceeded (g (id_d (last order))) \<and>
             isSubmissionInitiated (nextState (after st (downloadAttachments_consent br st item))
             (hostAnswers g (requestsFor (contentCallback_flag br) order))) = isSucceeded (g (id_d
             (last order))))
       \<and> (order \<noteq> [] \<and> completes br (g (id_d (last order))) \<and> isSucceeded (g
             (id_d (last order))) \<longrightarrow> SuccessBanner \<in> set
             (render_processEmailData (nextState (after st (downloadAttachments_consent br st
             item)) (hostAnswers g (requestsFor (contentCallback_flag br) order)))) \<and>
             (\<exists>els. render_AttachmentProcess (nextState (after st
             (downloadAttachments_AttachmentProcess br item)) (hostAnswers g (requestsFor
             (contentCallback_flag br) order))) item = Inr els \<and> SuccessBanner \<in> set
             els))"
proof -
  let ?final = "nextState st (hostAnswers g (requestsFor (contentCallback_flag br) order))"
  have flag: "isSubmissionInitiated ?final = (if filter (\<lambda>x. completes br (g (id_d x)))
        order = [] then isSubmissionInitiated st else isSucceeded (g (id_d (last (filter
        (\<lambda>x. completes br (g (id_d x))) order)))))"
    by (simp add: nextState_hostAnswers_contentCallback_flag)
  have banner: "isSubmissionInitiated ?final \<longrightarrow>
      SuccessBanner \<in> set (render_processEmailData ?final)"
    by (simp add: render_processEmailData_def)
  have render_AP: "isSubmissionInitiated ?final \<longrightarrow>
      (\<exists>els. render_AttachmentProcess ?final item = Inr els \<and> SuccessBanner \<in> set
            els)"
    by (simp add: render_AttachmentProcess_def)
  have all_complete: "(\<forall>x\<in>set order. completes br (g (id_d x))) \<and> order \<noteq>
        [] \<longrightarrow>
      isSubmissionInitiated ?final = isSucceeded (g (id_d (last order)))"
  proof
    assume all: "(\<forall>x\<in>set order. completes br (g (id_d x))) \<and> order \<noteq> []"
    then have "filter (\<lambda>x. completes br (g (id_d x))) order = order" by simp
    then show "isSubmissionInitiated ?final = isSucceeded (g (id_d (last order)))"
      using all by (simp only: flag if_False)
  qed
  have last_completes: "order \<noteq> [] \<and> completes br (g (id_d (last order)))
      \<and> isSucceeded (g (id_d (last order))) \<longrightarrow> isSubmissionInitiated ?final"
  proof
    assume last: "order \<noteq> [] \<and> completes br (g (id_d (last order)))
      \<and> isSucceeded (g (id_d (last order)))"
    then have "filter (\<lambda>x. completes br (g (id_d x))) order \<noteq> [] \<and> last
          (filter (\<lambda>x. completes br (g (id_d x))) order) = last order"
      using last_filter_last [of order "\<lambda>x. completes br (g (id_d x))"] by blast
    then show "isSubmissionInitiated ?final"
      using last by (simp only: flag if_False)
  qed
  have "requestsOf (downloadAttachments_AttachmentProcess br item) = requestsFor
        (contentCallback_flag br) list"
    using assms(1) by (rule requestsOf_handlers)
  have "requestsOf (downloadAttachments_consent br st item) = requestsFor (contentCallback_flag
        br) list"
    using assms(1) by (rule requestsOf_handlers)
  have "mset (requestsFor (contentCallback_flag br) order) = mset (requestsOf
        (downloadAttachments_AttachmentProcess br item))"
    by (simp only: requestsOf_handlers [OF assms(1)] requestsFor_permutation [OF assms(2)])
  have "mset (requestsFor (contentCallback_flag br) order) = mset (requestsOf
        (downloadAttachments_consent br st item))"
    by (simp only: requestsOf_handlers [OF assms(1)] requestsFor_permutation [OF assms(2)])
  have "nextState st (effectsOf (contentCallback_flag br a r)) = (if completes br r then
        st\<lparr>isSubmissionInitiated := isSucceeded r\<rparr> else st)"
    by (rule nextState_contentCallback_flag)
  have "isSubmissionInitiated (nextState (after st (downloadAttachments_AttachmentProcess br
        item)) (hostAnswers g (requestsFor (contentCallback_flag br) order))) = (if filter
        (\<lambda>x. completes br (g (id_d x))) order = [] then isSubmissionInitiated st else
        isSucceeded (g (id_d (last (filter (\<lambda>x. completes br (g (id_d x))) order)))))"
    unfolding after_downloadAttachments_AttachmentProcess by (rule flag)
  have "isSubmissionInitiated (nextState (after st (downloadAttachments_consent br st item))
        (hostAnswers g (requestsFor (contentCallback_flag br) order))) = (if filter (\<lambda>x.
        completes br (g (id_d x))) order = [] then isSubmissionInitiated st else isSucceeded (g
        (id_d (last (filter (\<lambda>x. completes br (g (id_d x))) order)))))"
    unfolding after_downloadAttachments_consent by (rule flag)
  have "SuccessBanner \<in> set (render_processEmailData (nextState (after st
        (downloadAttachments_consent br st item)) (hostAnswers g (requestsFor
        (contentCallback_flag br) order)))) \<longleftrightarrow> isSubmissionInitiated (nextState
        (after st (downloadAttachments_consent br st item)) (hostAnswers g (requestsFor
        (contentCallback_flag br) order)))"
    by (simp add: render_processEmailData_def)
  have "(\<forall>x\<in>set order. completes br (g (id_d x))) \<and> order \<noteq> []
        \<longrightarrow> isSubmissionInitiated (nextState (after st
        (downloadAttachments_AttachmentProcess br item)) (hostAnswers g (requestsFor
        (contentCallback_flag br) order))) = isSucceeded (g (id_d (last order))) \<and>
        isSubmissionInitiated (nextState (after st (downloadAttachments_consent br st item))
        (hostAnswers g (requestsFor (contentCallback_flag br) order))) = isSucceeded (g (id_d
        (last order)))"
    unfolding after_downloadAttachments_AttachmentProcess after_downloadAttachments_consent using
          all_complete by blast
  have "order \<noteq> [] \<and> completes br (g (id_d (last order))) \<and> isSucceeded (g (id_d
        (last order))) \<longrightarrow> SuccessBanner \<in> set (render_processEmailData
        (nextState (after st (downloadAttachments_consent br st item)) (hostAnswers g (requestsFor
        (contentCallback_flag br) order)))) \<and> (\<exists>els. render_AttachmentProcess
        (nextState (after st (downloadAttachments_AttachmentProcess br item)) (hostAnswers g
        (requestsFor (contentCallback_flag br) order))) item = Inr els \<and> SuccessBanner \<in>
        set els)"
    unfolding after_downloadAttachments_AttachmentProcess after_downloadAttachments_consent using
          last_completes banner render_AP by blast
  show ?thesis
    by (intro conjI) fact+
qed

theorem submission_flag_is_last_completed_callback_witness:
  "item_attachments exampleItem = Some [report_pdf, notes_txt]
   \<and> mset [report_pdf, notes_txt] = mset [report_pdf, notes_txt]
   \<and> mset [notes_txt, report_pdf] = mset [report_pdf, notes_txt]
   \<and> \<not> isSucceeded (exampleContent (id_d report_pdf))
   \<and> isSucceeded (exampleContent (id_d notes_txt))
   \<and> completes exampleBrowser (exampleContent (id_d report_pdf))
   \<and> completes exampleBrowser (exampleContent (id_d notes_txt))
   \<and> requestsOf (downloadAttachments_consent exampleBrowser fetchedState exampleItem) =
       requestsFor (contentCallback_flag exampleBrowser) [report_pdf, notes_txt]
   \<and> isSubmissionInitiated
        (nextState (after fetchedState (downloadAttachments_consent exampleBrowser fetchedState
              exampleItem))
           (hostAnswers exampleContent
              (requestsFor (contentCallback_flag exampleBrowser) [report_pdf, notes_txt])))
   \<and> SuccessBanner \<in> set (render_processEmailData
        (nextState (after fetchedState (downloadAttachments_consent exampleBrowser fetchedState
              exampleItem))
           (hostAnswers exampleContent
              (requestsFor (contentCallback_flag exampleBrowser) [report_pdf, notes_txt]))))
   \<and> \<not> isSubmissionInitiated
        (nextState (after fetchedState (downloadAttachments_AttachmentProcess exampleBrowser
              exampleItem))
           (hostAnswers exampleContent
              (requestsFor (contentCallback_flag exampleBrowser) [notes_txt, report_pdf])))"
proof -
  have list: "item_attachments exampleItem = Some [report_pdf, notes_txt]"
    by (simp add: exampleItem_def)
  have same_order: "mset [report_pdf, notes_txt] = mset [report_pdf, notes_txt]"
    by simp
  have other_order: "mset [notes_txt, report_pdf] = mset [report_pdf, notes_txt]"
    by simp
  have outcomes: "\<not> isSucceeded (exampleContent (id_d report_pdf))
      \<and> isSucceeded (exampleContent (id_d notes_txt))
      \<and> completes exampleBrowser (exampleContent (id_d report_pdf))
      \<and> completes exampleBrowser (exampleContent (id_d notes_txt))"
    by (simp add: exampleContent_def completes_def exampleBrowser_def report_pdf_def
        notes_txt_def)
  have lasts: "last [report_pdf, notes_txt] = notes_txt \<and> last [notes_txt, report_pdf] =
        report_pdf
      \<and> [report_pdf, notes_txt] \<noteq> [] \<and> [notes_txt, report_pdf] \<noteq> []"
    by simp
  have all1: "\<forall>x\<in>set [report_pdf, notes_txt]. completes exampleBrowser (exampleContent
        (id_d x))"
    using outcomes by simp
  have all2: "\<forall>x\<in>set [notes_txt, report_pdf]. completes exampleBrowser (exampleContent
        (id_d x))"
    using outcomes by simp
  note failed_first = submission_flag_is_last_completed_callback
    [OF list same_order, of exampleBrowser fetchedState report_pdf "Failed ''timeout''"
        exampleContent]
  note failed_last = submission_flag_is_last_completed_callback
    [OF list other_order, of exampleBrowser fetchedState report_pdf "Failed ''timeout''"
        exampleContent]
  have issued: "requestsOf (downloadAttachments_consent exampleBrowser fetchedState exampleItem) =
       requestsFor (contentCallback_flag exampleBrowser) [report_pdf, notes_txt]"
    using failed_first by blast
  have "isSubmissionInitiated
        (nextState (after fetchedState (downloadAttachments_consent exampleBrowser fetchedState
              exampleItem))
           (hostAnswers exampleContent
              (requestsFor (contentCallback_flag exampleBrowser) [report_pdf, notes_txt]))) =
        isSucceeded (exampleContent (id_d (last [report_pdf, notes_txt])))"
    using failed_first all1 lasts by blast
  then have flag: "isSubmissionInitiated
        (nextState (after fetchedState (downloadAttachments_consent exampleBrowser fetchedState
              exampleItem))
           (hostAnswers exampleContent
              (requestsFor (contentCallback_flag exampleBrowser) [report_pdf, notes_txt])))"
    using outcomes by simp
  have banner: "SuccessBanner \<in> set (render_processEmailData
        (nextState (after fetchedState (downloadAttachments_consent exampleBrowser fetchedState
              exampleItem))
           (hostAnswers exampleContent
              (requestsFor (contentCallback_flag exampleBrowser) [report_pdf, notes_txt]))))"
    using failed_first flag by blast
  have "isSubmissionInitiated
        (nextState (after fetchedState (downloadAttachments_AttachmentProcess exampleBrowser
              exampleItem))
           (hostAnswers exampleContent
              (requestsFor (contentCallback_flag exampleBrowser) [notes_txt, report_pdf]))) =
        isSucceeded (exampleContent (id_d (last [notes_txt, report_pdf])))"
    using failed_last all2 lasts by blast
  then have no_flag: "\<not> isSubmissionInitiated
        (nextState (after fetchedState (downloadAttachments_AttachmentProcess exampleBrowser
              exampleItem))
           (hostAnswers exampleContent
              (requestsFor (contentCallback_flag exampleBrowser) [notes_txt, report_pdf])))"
    using outcomes by simp
  show ?thesis
    using list same_order other_order outcomes issued flag banner no_flag by blast
qed

text \<open>
  C10. \<^verbatim>\<open>getMetadata\<close> and the metadata display of \<^verbatim>\<open>AttachmentProcess.tsx\<close> read
  \<^verbatim>\<open>to[0].emailAddress\<close> with no emptiness check and outside any \<^verbatim>\<open>try\<close>. With at least
  one To recipient both return; with an empty recipient list \<^verbatim>\<open>getMetadata\<close> faults
  before any setter or log call, so the state (the fetch flag included) stays as it was,
  and the render faults whenever the metadata section is to be shown.
\<close>

theorem first_recipient_read_faults_on_empty_list:
  "(item_to item = [] \<longrightarrow>
      getMetadata st item = Inl TypeError \<and> after st (getMetadata st item) = st)
   \<and> (item_to item \<noteq> [] \<longrightarrow> (\<exists>t. getMetadata st item = Inr t))
   \<and> (render_AttachmentProcess st item = Inl TypeError \<longleftrightarrow>
        attachments st \<noteq> [] \<and> \<not> isSubmissionInitiated st \<and> item_to item = [])
   \<and> (\<not> (attachments st \<noteq> [] \<and> \<not> isSubmissionInitiated st \<and>
         item_to item = []) \<longrightarrow>
        (\<exists>els. render_AttachmentProcess st item = Inr els))"
  by (auto simp add: getMetadata_def fetchAttachmentMetadata_def try_catch_def after_def
      render_AttachmentProcess_def Let_def split: list.splits option.splits)

theorem first_recipient_read_faults_on_empty_list_witness:
  "item_to itemWithoutRecipient = []
   \<and> getMetadata initialState itemWithoutRecipient = Inl TypeError
   \<and> isAttachmentFetched (after initialState (getMetadata initialState itemWithoutRecipient))
         = None
   \<and> render_AttachmentProcess fetchedState itemWithoutRecipient = Inl TypeError
   \<and> item_to exampleItem \<noteq> []
   \<and> (\<exists>t. getMetadata initialState exampleItem = Inr t)
   \<and> (\<exists>els. render_AttachmentProcess fetchedState exampleItem = Inr els)"
proof -
  have empty: "item_to itemWithoutRecipient = []"
    by (simp add: itemWithoutRecipient_def)
  have nonempty: "item_to exampleItem \<noteq> []"
    by (simp add: exampleItem_def)
  have shown: "attachments fetchedState \<noteq> [] \<and> \<not> isSubmissionInitiated
        fetchedState"
    by (simp add: fetchedState_def)
  have fault: "getMetadata initialState itemWithoutRecipient = Inl TypeError"
    using first_recipient_read_faults_on_empty_list [of itemWithoutRecipient initialState] empty
    by blast
  have same: "after initialState (getMetadata initialState itemWithoutRecipient) = initialState"
    using first_recipient_read_faults_on_empty_list [of itemWithoutRecipient initialState] empty
    by blast
  have flag: "isAttachmentFetched (after initialState (getMetadata initialState
        itemWithoutRecipient))
      = None"
    unfolding same by (simp add: initialState_def)
  have render_fault: "render_AttachmentProcess fetchedState itemWithoutRecipient = Inl TypeError"
    using first_recipient_read_faults_on_empty_list [of itemWithoutRecipient fetchedState]
      empty shown
    by blast
  have returns: "\<exists>t. getMetadata initialState exampleItem = Inr t"
    using first_recipient_read_faults_on_empty_list [of exampleItem initialState] nonempty
    by blast
  have renders: "\<exists>els. render_AttachmentProcess fetchedState exampleItem = Inr els"
    using first_recipient_read_faults_on_empty_list [of exampleItem fetchedState] nonempty
    by blast
  show ?thesis
    using empty fault flag render_fault nonempty returns renders by blast
qed

end
